theory Spec2Isabelle
  imports Main
begin

text \<open>
  The backend resolves a GitHub token for a request, lists the repositories of an
  organization (or user), collects the workflows of each repository with their latest run,
  and renders a job of a run as a text summary.  The routes are embedded as functions that
  take the outside world (database, environment, remote API) as a parameter and return
  their answer together with the list of outbound calls they made; a rejected call is the
  \<open>Inl\<close> of a sum and travels as the exception does.
\<close>

section \<open>Credential masking (backend/src/utils/crypto.js)\<close>

text \<open>
  JavaScript strings are modelled as \<open>string\<close>, one \<open>char\<close> per code unit, so that
  \<open>length\<close> is the source's \<open>s.length\<close>.  \<open>mask\<close> returns \<open>null\<close> for a falsy
  argument; its callers pass a string, so the only falsy argument is the empty string.
  \<^verbatim>\<open>
  export function mask(str) {
    if (!str) return null;
    const s = String(str);
    return s.length <= 4 ? '****' : `${'*'.repeat(s.length - 4)}${s.slice(-4)}`;
  }
  \<close>
\<close>

definition mask :: "string \<Rightarrow> string option" where
  "mask str =
     (if str = [] then None
      else Some (if length str \<le> 4 then ''****''
                 else replicate (length str - 4) CHR ''*'' @ drop (length str - 4) str))"

section \<open>JavaScript values\<close>

text \<open>
  A value that may be \<open>undefined\<close> or \<open>null\<close> is an \<open>option\<close>.  A string is falsy
  exactly when it is absent or empty; \<open>a || b\<close> on such values takes \<open>b\<close> in that case.
\<close>

definition truthy :: "string option \<Rightarrow> bool" where
  "truthy v = (case v of None \<Rightarrow> False | Some s \<Rightarrow> s \<noteq> [])"

definition or_else :: "string option \<Rightarrow> string \<Rightarrow> string" where
  "or_else v d = (case v of None \<Rightarrow> d | Some s \<Rightarrow> if s = [] then d else s)"

text \<open>A template literal renders \<open>null\<close> as the text \<open>null\<close>.\<close>

definition tpl :: "string option \<Rightarrow> string" where
  "tpl v = (case v of None \<Rightarrow> ''null'' | Some s \<Rightarrow> s)"

text \<open>\<open>String(n)\<close> of a non-negative integer identifier: its decimal digits.\<close>

definition digit :: "nat \<Rightarrow> char" where
  "digit d = char_of (48 + d)"

fun show_nat :: "nat \<Rightarrow> string" where
  "show_nat n = (if n < 10 then [digit n] else show_nat (n div 10) @ [digit (n mod 10)])"

text \<open>\<open>toLowerCase\<close>, on the letters A to Z (the query values compared are ASCII words).\<close>

definition lower_char :: "char \<Rightarrow> char" where
  "lower_char c =
     (let n = (of_char c :: nat) in if 65 \<le> n \<and> n \<le> 90 then char_of (n + 32) else c)"

definition toLowerCase :: "string \<Rightarrow> string" where
  "toLowerCase s = map lower_char s"

text \<open>\<open>Array.prototype.join\<close> with a separator.\<close>

fun join :: "string \<Rightarrow> string list \<Rightarrow> string" where
  "join sep [] = []"
| "join sep [l] = l"
| "join sep (l # m # ls) = l @ sep @ join sep (m # ls)"

text \<open>The dash that the summary prints for a missing timestamp (U+2014, as UTF-8).\<close>

definition dash :: string where
  "dash = [CHR 0xE2, CHR 0x80, CHR 0x94]"

section \<open>Decryption of a stored secret (backend/src/utils/crypto.js)\<close>

text \<open>\<open>String.prototype.split\<close> on a one-character separator.\<close>

fun split :: "char \<Rightarrow> string \<Rightarrow> string list" where
  "split c [] = [[]]"
| "split c (x # xs) =
     (if x = c then [] # split c xs
      else (case split c xs of [] \<Rightarrow> [[x]] | w # ws \<Rightarrow> (x # w) # ws))"

text \<open>
  \<^verbatim>\<open>
  export function decrypt(payload = '') {
    try {
      const [ivB64, tagB64, dataB64] = String(payload).split(':');
      if (!ivB64 || !tagB64 || !dataB64) return null;
      ... createDecipheriv, setAuthTag, update, final ...
      return dec.toString('utf8');
    } catch { return null; }
  }
  \<close>
  The AES-GCM opening itself belongs to the platform's crypto library; it is the parameter
  \<open>decipher\<close>, which yields \<open>None\<close> where the library throws.
\<close>

type_synonym decipher = "string \<Rightarrow> string \<Rightarrow> string \<Rightarrow> string option"

definition decrypt :: "decipher \<Rightarrow> string \<Rightarrow> string option" where
  "decrypt dec payload =
     (case split CHR '':'' payload of
        ivB64 # tagB64 # dataB64 # _ \<Rightarrow>
          if ivB64 = [] \<or> tagB64 = [] \<or> dataB64 = [] then None
          else dec ivB64 tagB64 dataB64
      | _ \<Rightarrow> None)"

section \<open>Remote data and the outside world\<close>

text \<open>The fields the routes read from the remote API's JSON.\<close>

record repository =
  repo_owner_login :: "string option"
  repo_name :: string

record workflow =
  wf_id :: nat
  wf_name :: string
  wf_path :: string
  wf_state :: string
  wf_created_at :: string
  wf_updated_at :: string
  wf_html_url :: string

record run =
  run_id :: nat
  run_status :: string
  run_conclusion :: "string option"
  run_event :: string
  run_head_branch :: "string option"
  run_created_at :: string
  run_updated_at :: string
  run_html_url :: string
  run_actor_login :: "string option"

record step =
  step_number :: nat
  step_name :: string
  step_status :: string
  step_conclusion :: "string option"
  step_started_at :: "string option"
  step_completed_at :: "string option"

record job =
  job_id :: nat
  job_name :: string
  job_status :: string
  job_conclusion :: "string option"
  job_started_at :: "string option"
  job_completed_at :: "string option"
  job_steps :: "step list option"

text \<open>What the routes send back: the object built by \<open>fetchLatestRun\<close> and a pipeline.\<close>

record latest =
  lr_runId :: nat
  lr_status :: string
  lr_conclusion :: "string option"
  lr_event :: string
  lr_head_branch :: "string option"
  lr_created_at :: string
  lr_updated_at :: string
  lr_url :: string
  lr_actor :: "string option"

record pipeline =
  pl_owner :: string
  pl_repo :: string
  pl_workflowId :: nat
  pl_name :: string
  pl_path :: string
  pl_state :: string
  pl_created_at :: string
  pl_updated_at :: string
  pl_url :: string
  pl_latest_run :: "latest option"

text \<open>
  A rejected \<open>axios.get\<close>: \<open>e.response?.status\<close>, \<open>e.response?.data?.message\<close> and
  \<open>e.message\<close>.  The library rejects every answer outside 2xx and every transport failure
  (then there is no response).
\<close>

record axios_error =
  resp_status :: "nat option"
  resp_message :: "string option"
  err_message :: string

text \<open>The remote endpoints, with the values the routes put into the URL.\<close>

datatype endpoint =
    User
  | OrgRepos string
  | UserRepos string
  | Workflows string string
  | WorkflowRuns string string nat
  | RunJobs string string string

text \<open>Every outbound call is recorded: a database lookup, or a GET with its token.\<close>

datatype effect = DbFindById string | HttpGet endpoint string

text \<open>
  The world outside the process during one request: the user collection
  (\<open>Inl\<close> when the lookup throws, \<open>Inr None\<close> when no document matches), the crypto library,
  the environment variable \<open>GITHUB_PAT\<close>, and the remote API's answer to each GET.
  The answers are those of one remote state: while a request is served, the same GET has
  the same answer.  A resolved GET carries JSON of the documented shape (the records above),
  so the only exceptions in the routes are rejected calls.
\<close>

record user_doc =
  github_patEnc :: "string option"

record world =
  db_findById :: "string \<Rightarrow> string + user_doc option"
  crypto_decipher :: decipher
  env_GITHUB_PAT :: "string option"
  gh_user :: "string \<Rightarrow> axios_error + unit"
  gh_org_repos :: "string \<Rightarrow> string \<Rightarrow> axios_error + repository list"
  gh_user_repos :: "string \<Rightarrow> string \<Rightarrow> axios_error + repository list"
  gh_workflows :: "string \<Rightarrow> string \<Rightarrow> string \<Rightarrow> axios_error + workflow list option"
  gh_runs :: "string \<Rightarrow> string \<Rightarrow> nat \<Rightarrow> string \<Rightarrow> axios_error + run list option"
  gh_jobs :: "string \<Rightarrow> string \<Rightarrow> string \<Rightarrow> string \<Rightarrow> axios_error + job list option"

text \<open>The parts of an incoming request that the routes read.\<close>

record request =
  req_user_id :: "string option"
  req_session_passport_user :: "string option"
  req_user_accessToken :: "string option"
  header_x_github_token :: "string option"
  query_org :: "string option"
  query_includeRuns :: "string option"
  query_owner :: "string option"
  query_repo :: "string option"
  query_runId :: "string option"
  query_jobId :: "string option"

text \<open>A JSON response: an error with its status, the pipeline list, or a text.\<close>

datatype response =
    JsonError nat string
  | JsonPipelines "pipeline list"
  | JsonText string

section \<open>Token resolution (backend/src/routes/github.js)\<close>

text \<open>
  \<^verbatim>\<open>
  function maybeAuth(req, _res, next) {
    try {
      if (req.user?._id) { req.userId = req.user._id; }
      else if (req.session?.passport?.user) { req.userId = req.session.passport.user; }
    } catch (_) {}
    return next();
  }
  \<close>
\<close>

definition maybeAuth :: "request \<Rightarrow> string option" where
  "maybeAuth req =
     (if truthy (req_user_id req) then req_user_id req
      else if truthy (req_session_passport_user req) then req_session_passport_user req
      else None)"

text \<open>\<open>u?.github?.patEnc || ''\<close>\<close>

definition patEncOf :: "user_doc option \<Rightarrow> string" where
  "patEncOf u = (case u of None \<Rightarrow> [] | Some d \<Rightarrow> or_else (github_patEnc d) [])"

text \<open>
  The first half of \<open>ensureGitHubToken\<close> (the steps numbered 1 to 3 in the source): it
  leaves \<open>token\<close> and \<open>source\<close>, and has looked the user up when a user id is known.
  \<^verbatim>\<open>
    let token = null;
    let source = 'none';
    if (req.userId) {
      try {
        const u = await User.findById(req.userId).lean();
        const pat = decrypt(u?.github?.patEnc || '');
        if (pat) { token = pat; source = 'db'; }
      } catch (e) { console.warn(...); }
    }
    if (!token) {
      const tokenFromHeader = req.headers['x-github-token'];
      if (tokenFromHeader) { token = tokenFromHeader; source = 'header'; }
    }
    if (!token && process.env.GITHUB_PAT) { token = process.env.GITHUB_PAT; source = 'env'; }
  \<close>
\<close>

definition selectToken ::
  "world \<Rightarrow> string option \<Rightarrow> string option \<Rightarrow> effect list
     \<Rightarrow> string option \<times> string \<times> effect list" where
  "selectToken w userId tokenFromHeader log =
     (let (token, source, log) =
            (case userId of
               None \<Rightarrow> (None, ''none'', log)
             | Some uid \<Rightarrow>
                 if uid = [] then (None, ''none'', log)
                 else (case db_findById w uid of
                         Inl _ \<Rightarrow> (None, ''none'', log @ [DbFindById uid])
                       | Inr u \<Rightarrow>
                           let pat = decrypt (crypto_decipher w) (patEncOf u) in
                           if truthy pat then (pat, ''db'', log @ [DbFindById uid])
                           else (None, ''none'', log @ [DbFindById uid])));
          (token, source) =
            (if \<not> truthy token \<and> truthy tokenFromHeader then (tokenFromHeader, ''header'')
             else (token, source));
          (token, source) =
            (if \<not> truthy token \<and> truthy (env_GITHUB_PAT w) then (env_GITHUB_PAT w, ''env'')
             else (token, source))
      in (token, source, log))"

text \<open>
  The middleware either calls \<open>next()\<close>, with \<open>req.githubToken\<close> and
  \<open>req.githubTokenSource\<close> set, or answers itself.  (Its outermost \<open>catch\<close>, which
  hands an exception to \<open>next(e)\<close>, has nothing to catch: both calls that can throw sit in
  their own \<open>try\<close>.)
  \<^verbatim>\<open>
    if (!token) { return res.status(401).json({ error: 'Missing token' }); }
    try {
      const who = await axios.get('https://api.github.com/user', { headers: ... token ... });
      req.githubToken = token; req.githubTokenSource = source;
      return next();
    } catch (e) {
      return res.status(401).json({ error: 'Bad credentials' });
    }
  \<close>
\<close>

datatype auth = Next string string | Reply nat string

definition ensureGitHubToken ::
  "world \<Rightarrow> string option \<Rightarrow> string option \<Rightarrow> effect list \<Rightarrow> auth \<times> effect list" where
  "ensureGitHubToken w userId tokenFromHeader log =
     (case selectToken w userId tokenFromHeader log of
        (token, source, log) \<Rightarrow>
          (case token of
             None \<Rightarrow> (Reply 401 ''Missing token'', log)
           | Some t \<Rightarrow>
               if t = [] then (Reply 401 ''Missing token'', log)
               else (case gh_user w t of
                       Inr _ \<Rightarrow> (Next t source, log @ [HttpGet User t])
                     | Inl e \<Rightarrow> (Reply 401 ''Bad credentials'', log @ [HttpGet User t]))))"

section \<open>The aggregation (backend/src/routes/github.js, also in routes/pipeline.js)\<close>

text \<open>
  \<^verbatim>\<open>
  async function fetchLatestRun(owner, repo, workflowId, token) {
    const runsRes = await axios.get(`.../repos/${owner}/${repo}/actions/workflows/${workflowId}/runs?per_page=1`, ...);
    const run = runsRes.data?.workflow_runs?.[0];
    if (!run) return null;
    return { runId: run.id, status: run.status, ..., actor: run.actor?.login };
  }
  \<close>
  The answer's \<open>workflow_runs\<close> may be missing (\<open>None\<close>) or a list.
\<close>

definition fetchLatestRun ::
  "world \<Rightarrow> string \<Rightarrow> string \<Rightarrow> nat \<Rightarrow> string \<Rightarrow> effect list
     \<Rightarrow> (axios_error + latest option) \<times> effect list" where
  "fetchLatestRun w owner repo workflowId token log =
     (let log = log @ [HttpGet (WorkflowRuns owner repo workflowId) token] in
      case gh_runs w owner repo workflowId token of
        Inl e \<Rightarrow> (Inl e, log)
      | Inr workflow_runs \<Rightarrow>
          (case (case workflow_runs of None \<Rightarrow> None | Some [] \<Rightarrow> None | Some (r # _) \<Rightarrow> Some r) of
             None \<Rightarrow> (Inr None, log)
           | Some run \<Rightarrow>
               (Inr (Some \<lparr>lr_runId = run_id run, lr_status = run_status run,
                            lr_conclusion = run_conclusion run, lr_event = run_event run,
                            lr_head_branch = run_head_branch run,
                            lr_created_at = run_created_at run,
                            lr_updated_at = run_updated_at run, lr_url = run_html_url run,
                            lr_actor = run_actor_login run\<rparr>), log)))"

text \<open>The object pushed for one workflow.\<close>

definition mkPipeline :: "string \<Rightarrow> string \<Rightarrow> workflow \<Rightarrow> latest option \<Rightarrow> pipeline" where
  "mkPipeline owner repo wfl latest_run =
     \<lparr>pl_owner = owner, pl_repo = repo, pl_workflowId = wf_id wfl, pl_name = wf_name wfl,
      pl_path = wf_path wfl, pl_state = wf_state wfl, pl_created_at = wf_created_at wfl,
      pl_updated_at = wf_updated_at wfl, pl_url = wf_html_url wfl, pl_latest_run = latest_run\<rparr>"

text \<open>The state the loops change: the array \<open>pipelines\<close>, and the calls made so far.\<close>

record agg =
  pipelines :: "pipeline list"
  calls :: "effect list"

text \<open>
  The inner loop; \<open>Inl e\<close> is the exception that left it.
  \<^verbatim>\<open>
          for (const wf of wfRes.data.workflows) {
            const latest_run = includeRuns
              ? await fetchLatestRun(owner, repo.name, wf.id, req.githubToken)
              : null;
            pipelines.push({ owner, repo: repo.name, workflowId: wf.id, ..., latest_run });
          }
  \<close>
\<close>

fun wfLoop ::
  "world \<Rightarrow> bool \<Rightarrow> string \<Rightarrow> string \<Rightarrow> string \<Rightarrow> workflow list \<Rightarrow> agg
     \<Rightarrow> (axios_error + unit) \<times> agg" where
  "wfLoop w includeRuns owner repo token [] st = (Inr (), st)"
| "wfLoop w includeRuns owner repo token (wfl # wfs) st =
     (if includeRuns then
        (case fetchLatestRun w owner repo (wf_id wfl) token (calls st) of
           (Inl e, log) \<Rightarrow> (Inl e, st\<lparr>calls := log\<rparr>)
         | (Inr latest_run, log) \<Rightarrow>
             wfLoop w includeRuns owner repo token wfs
               (st\<lparr>pipelines := pipelines st @ [mkPipeline owner repo wfl latest_run],
                   calls := log\<rparr>))
      else
        wfLoop w includeRuns owner repo token wfs
          (st\<lparr>pipelines := pipelines st @ [mkPipeline owner repo wfl None]\<rparr>))"

text \<open>\<open>const owner = repo.owner?.login || org\<close>\<close>

definition ownerOf :: "string \<Rightarrow> repository \<Rightarrow> string" where
  "ownerOf org repo = or_else (repo_owner_login repo) org"

text \<open>\<open>[403, 404, 409].includes(e.response?.status)\<close>\<close>

definition skippable :: "axios_error \<Rightarrow> bool" where
  "skippable e = (resp_status e \<in> {Some 403, Some 404, Some 409})"

text \<open>
  The body of the outer loop for one repository: the listing of its workflows and the
  inner loop, both inside the \<open>try\<close>.
  \<^verbatim>\<open>
        const wfRes = await axios.get(`.../repos/${owner}/${repo.name}/actions/workflows?per_page=100`, ...);
        if (wfRes.data?.workflows?.length) { for (const wf of wfRes.data.workflows) ... }
  \<close>
\<close>

definition repoBody ::
  "world \<Rightarrow> bool \<Rightarrow> string \<Rightarrow> string \<Rightarrow> repository \<Rightarrow> agg \<Rightarrow> (axios_error + unit) \<times> agg" where
  "repoBody w includeRuns org token repo st =
     (let owner = ownerOf org repo;
          st = st\<lparr>calls := calls st @ [HttpGet (Workflows owner (repo_name repo)) token]\<rparr>
      in case gh_workflows w owner (repo_name repo) token of
           Inl e \<Rightarrow> (Inl e, st)
         | Inr workflows \<Rightarrow>
             (case workflows of
                None \<Rightarrow> (Inr (), st)
              | Some wfs \<Rightarrow>
                  if wfs = [] then (Inr (), st)
                  else wfLoop w includeRuns owner (repo_name repo) token wfs st))"

text \<open>
  The outer loop.
  \<^verbatim>\<open>
    for (const repo of reposRes.data) {
      const owner = repo.owner?.login || org;
      try { ... } catch (e) {
        if ([403, 404, 409].includes(e.response?.status)) continue;
        throw e;
      }
    }
  \<close>
\<close>

fun repoLoop ::
  "world \<Rightarrow> bool \<Rightarrow> string \<Rightarrow> string \<Rightarrow> repository list \<Rightarrow> agg
     \<Rightarrow> (axios_error + unit) \<times> agg" where
  "repoLoop w includeRuns org token [] st = (Inr (), st)"
| "repoLoop w includeRuns org token (repo # repos) st =
     (case repoBody w includeRuns org token repo st of
        (Inl e, st) \<Rightarrow>
          if skippable e then repoLoop w includeRuns org token repos st else (Inl e, st)
      | (Inr _, st) \<Rightarrow> repoLoop w includeRuns org token repos st)"

text \<open>
  The enumeration of the repositories: by organization, and by user when that is not found.
  \<^verbatim>\<open>
    let reposRes;
    try {
      reposRes = await axios.get(`.../orgs/${org}/repos?type=all&per_page=100`, ...);
    } catch (e) {
      if (e.response?.status === 404) {
        reposRes = await axios.get(`.../users/${org}/repos?per_page=100`, ...);
      } else { throw e; }
    }
  \<close>
\<close>

definition listRepos ::
  "world \<Rightarrow> string \<Rightarrow> string \<Rightarrow> effect list \<Rightarrow> (axios_error + repository list) \<times> effect list" where
  "listRepos w org token log =
     (case gh_org_repos w org token of
        Inr repos \<Rightarrow> (Inr repos, log @ [HttpGet (OrgRepos org) token])
      | Inl e \<Rightarrow>
          if resp_status e = Some 404 then
            (gh_user_repos w org token,
             log @ [HttpGet (OrgRepos org) token, HttpGet (UserRepos org) token])
          else (Inl e, log @ [HttpGet (OrgRepos org) token]))"

text \<open>
  \<^verbatim>\<open>
    const msg = err.response?.data?.message || err.message;
    res.status(err.response?.status || 500).json({ error: msg });
  \<close>
\<close>

definition errorReply :: "axios_error \<Rightarrow> response" where
  "errorReply err =
     JsonError (case resp_status err of None \<Rightarrow> 500 | Some n \<Rightarrow> if n = 0 then 500 else n)
               (or_else (resp_message err) (err_message err))"

text \<open>
  \<open>String(req.query.includeRuns ?? 'true').toLowerCase() !== 'false'\<close>
\<close>

definition includeRunsOf :: "string option \<Rightarrow> bool" where
  "includeRunsOf q = (toLowerCase (case q of None \<Rightarrow> ''true'' | Some s \<Rightarrow> s) \<noteq> ''false'')"

text \<open>
  Everything between the enumeration and the answer, the same text in both routes:
  \<open>Inr\<close> the pipelines of \<open>res.json(pipelines)\<close>, \<open>Inl\<close> the exception that reaches the
  route's outer \<open>catch\<close>.
\<close>

definition aggregate ::
  "world \<Rightarrow> string \<Rightarrow> bool \<Rightarrow> string \<Rightarrow> effect list
     \<Rightarrow> (axios_error + pipeline list) \<times> effect list" where
  "aggregate w org includeRuns token log =
     (case listRepos w org token log of
        (Inl e, log) \<Rightarrow> (Inl e, log)
      | (Inr repos, log) \<Rightarrow>
          (case repoLoop w includeRuns org token repos \<lparr>pipelines = [], calls = log\<rparr> of
             (Inl e, st) \<Rightarrow> (Inl e, calls st)
           | (Inr _, st) \<Rightarrow> (Inr (pipelines st), calls st)))"

text \<open>
  The handler of \<open>GET /github/pipelines\<close>, run after the middleware has set
  \<open>req.githubToken\<close>.
  \<^verbatim>\<open>
    const org = req.query.org;
    const includeRuns = String(req.query.includeRuns ?? 'true').toLowerCase() !== 'false';
    if (!org) return res.status(400).json({ error: 'Organization name is required' });
    try { ... res.json(pipelines); }
    catch (err) { ... res.status(err.response?.status || 500).json({ error: msg }); }
  \<close>
\<close>

definition pipelinesHandler ::
  "world \<Rightarrow> request \<Rightarrow> string \<Rightarrow> effect list \<Rightarrow> response \<times> effect list" where
  "pipelinesHandler w req githubToken log =
     (if \<not> truthy (query_org req) then (JsonError 400 ''Organization name is required'', log)
      else (case aggregate w (or_else (query_org req) [])
                    (includeRunsOf (query_includeRuns req)) githubToken log of
              (Inl err, log) \<Rightarrow> (errorReply err, log)
            | (Inr ps, log) \<Rightarrow> (JsonPipelines ps, log)))"

text \<open>
  \<open>router.get('/pipelines', maybeAuth, ensureGitHubToken, handler)\<close>
\<close>

definition githubPipelines :: "world \<Rightarrow> request \<Rightarrow> response \<times> effect list" where
  "githubPipelines w req =
     (case ensureGitHubToken w (maybeAuth req) (header_x_github_token req) [] of
        (Reply code msg, log) \<Rightarrow> (JsonError code msg, log)
      | (Next githubToken _, log) \<Rightarrow> pipelinesHandler w req githubToken log)"

section \<open>The top-level route (routes/pipeline.js)\<close>

text \<open>
  \<^verbatim>\<open>
  router.get('/', async (req, res) => {
    const org = req.query.org;
    const includeRuns = String(req.query.includeRuns ?? 'true').toLowerCase() !== 'false';
    if (!org) return res.status(400).json({ error: 'Organization is required' });
    const tokenFromOAuth = req.user?.accessToken;
    const tokenFromHeader = req.headers['x-github-token'];
    const token = tokenFromOAuth || tokenFromHeader || process.env.GITHUB_PAT;
    if (!token) return res.status(401).json({ error: 'GitHub token required (oauth/header/.env)' });
    try { ... return res.json(pipelines); }
    catch (err) {
      if (err.response?.status === 404) {
        return res.status(404).json({ error: `Organization or user '${org}' not found` });
      }
      const msg = err.response?.data?.message || err.message;
      return res.status(err.response?.status || 500).json({ error: msg });
    }
  });
  \<close>
\<close>

definition pipelineRoute :: "world \<Rightarrow> request \<Rightarrow> response \<times> effect list" where
  "pipelineRoute w req =
     (if \<not> truthy (query_org req) then (JsonError 400 ''Organization is required'', [])
      else
        let org = or_else (query_org req) [];
            token = (if truthy (req_user_accessToken req) then req_user_accessToken req
                     else if truthy (header_x_github_token req) then header_x_github_token req
                     else env_GITHUB_PAT w)
        in if \<not> truthy token
           then (JsonError 401 ''GitHub token required (oauth/header/.env)'', [])
           else (case aggregate w org (includeRunsOf (query_includeRuns req))
                         (or_else token []) [] of
                   (Inl err, log) \<Rightarrow>
                     (if resp_status err = Some 404
                      then JsonError 404 (''Organization or user '' @ [CHR 0x27] @ org
                                            @ [CHR 0x27] @ '' not found'')
                      else errorReply err, log)
                 | (Inr ps, log) \<Rightarrow> (JsonPipelines ps, log)))"

section \<open>The job summary (backend/src/routes/github.js)\<close>

text \<open>
  \<^verbatim>\<open>
      lines.push(
        ` - #${s.number} ${s.name} | status: ${s.status} | conclusion: ${s.conclusion} | started: ${s.started_at || '-'} | completed: ${s.completed_at || '-'}`
      );
  \<close>
  (the source prints the dash U+2014).
\<close>

definition stepLine :: "step \<Rightarrow> string" where
  "stepLine s =
     '' - #'' @ show_nat (step_number s) @ '' '' @ step_name s
       @ '' | status: '' @ step_status s
       @ '' | conclusion: '' @ tpl (step_conclusion s)
       @ '' | started: '' @ or_else (step_started_at s) dash
       @ '' | completed: '' @ or_else (step_completed_at s) dash"

text \<open>
  \<^verbatim>\<open>
    const lines = [];
    lines.push(`Job: ${job.name} | status: ${job.status} | conclusion: ${job.conclusion}`);
    lines.push(`Started: ${job.started_at || '-'} | Completed: ${job.completed_at || '-'}`);
    lines.push('');
    lines.push('Steps:');
    for (const s of job.steps || []) { lines.push(...); }
    lines.push('');
    lines.push('(Raw log not fetched: GH API returns ZIP; this is a synthesized summary text.)');
  \<close>
\<close>

definition jobHeader :: "job \<Rightarrow> string list" where
  "jobHeader job =
     [''Job: '' @ job_name job @ '' | status: '' @ job_status job
        @ '' | conclusion: '' @ tpl (job_conclusion job),
      ''Started: '' @ or_else (job_started_at job) dash
        @ '' | Completed: '' @ or_else (job_completed_at job) dash,
      [],
      ''Steps:'']"

definition rawLogNote :: string where
  "rawLogNote = ''(Raw log not fetched: GH API returns ZIP; this is a synthesized summary text.)''"

definition jobLogLines :: "job \<Rightarrow> string list" where
  "jobLogLines job =
     jobHeader job
     @ map stepLine (case job_steps job of None \<Rightarrow> [] | Some ss \<Rightarrow> ss)
     @ [[], rawLogNote]"

text \<open>
  The handler of \<open>GET /github/job-log\<close>, after the middleware.
  \<^verbatim>\<open>
    const { owner, repo, runId, jobId } = req.query;
    if (!owner || !repo || !runId || !jobId) { return res.status(400).json(...); }
    try {
      const { data } = await axios.get(`.../repos/${owner}/${repo}/actions/runs/${runId}/jobs?per_page=100`, ...);
      const job = (data.jobs || []).find((j) => String(j.id) === String(jobId));
      if (!job) return res.json({ text: '(No job found to assemble log)' });
      ...
      res.json({ text: lines.join('\n') });
    } catch (err) { ... }
  \<close>
\<close>

definition jobLogHandler ::
  "world \<Rightarrow> request \<Rightarrow> string \<Rightarrow> effect list \<Rightarrow> response \<times> effect list" where
  "jobLogHandler w req githubToken log =
     (if \<not> truthy (query_owner req) \<or> \<not> truthy (query_repo req)
         \<or> \<not> truthy (query_runId req) \<or> \<not> truthy (query_jobId req)
      then (JsonError 400 ''owner, repo, runId and jobId are required'', log)
      else
        let owner = or_else (query_owner req) []; repo = or_else (query_repo req) [];
            runId = or_else (query_runId req) []; jobId = or_else (query_jobId req) [];
            log = log @ [HttpGet (RunJobs owner repo runId) githubToken]
        in case gh_jobs w owner repo runId githubToken of
             Inl err \<Rightarrow> (errorReply err, log)
           | Inr jobs \<Rightarrow>
               (case find (\<lambda>j. show_nat (job_id j) = jobId)
                          (case jobs of None \<Rightarrow> [] | Some js \<Rightarrow> js) of
                  None \<Rightarrow> (JsonText ''(No job found to assemble log)'', log)
                | Some job \<Rightarrow> (JsonText (join [CHR 0x0A] (jobLogLines job)), log)))"

section \<open>What the statements observe\<close>

text \<open>
  The call that \<open>fetchLatestRun\<close> makes, the listing of a user's repositories, and the
  identity of a pipeline and of a repository.
\<close>

fun isRunsCall :: "effect \<Rightarrow> bool" where
  "isRunsCall (HttpGet (WorkflowRuns _ _ _) _) = True"
| "isRunsCall _ = False"

fun isUserReposCall :: "effect \<Rightarrow> bool" where
  "isUserReposCall (HttpGet (UserRepos _) _) = True"
| "isUserReposCall _ = False"

definition triple :: "pipeline \<Rightarrow> string \<times> string \<times> nat" where
  "triple p = (pl_owner p, pl_repo p, pl_workflowId p)"

definition repoKey :: "string \<Rightarrow> repository \<Rightarrow> string \<times> string" where
  "repoKey org repo = (ownerOf org repo, repo_name repo)"

section \<open>An example world\<close>

text \<open>
  A small organization for the concrete checks below: \<open>acme\<close> has the repositories
  \<open>api\<close> (two workflows, the second never run), \<open>vault\<close> (listing forbidden) and
  \<open>web\<close> (one workflow, no owner in the listing); \<open>ops\<close> has a repository whose
  listing meets a gateway error; \<open>octocat\<close> is a user, not an organization.  The stand-in for the cipher opens a payload whose first two parts are the
  expected ones and returns the third.
\<close>

definition httpError :: "nat \<Rightarrow> string \<Rightarrow> axios_error" where
  "httpError code msg =
     \<lparr>resp_status = Some code, resp_message = Some msg,
      err_message = ''Request failed with status code '' @ show_nat code\<rparr>"

definition demo_decipher :: decipher where
  "demo_decipher iv tag data = (if iv = ''aXY='' \<and> tag = ''dGFn'' then Some data else None)"

definition demo_db :: "string \<Rightarrow> string + user_doc option" where
  "demo_db uid =
     (if uid = ''alice'' then Inr (Some \<lparr>github_patEnc = Some ''aXY=:dGFn:ghp_alice''\<rparr>)
      else if uid = ''bob'' then Inr (Some \<lparr>github_patEnc = Some ''aXY=:dGFn:ghp_revoked''\<rparr>)
      else if uid = ''carol'' then Inl ''connection lost''
      else if uid = ''dave'' then Inr (Some \<lparr>github_patEnc = Some ''corrupt''\<rparr>)
      else Inr None)"

definition demo_valid :: "string \<Rightarrow> bool" where
  "demo_valid t = (t = ''ghp_alice'' \<or> t = ''ghp_header'' \<or> t = ''ghp_env'')"

definition demo_workflow :: "nat \<Rightarrow> string \<Rightarrow> workflow" where
  "demo_workflow i n =
     \<lparr>wf_id = i, wf_name = n, wf_path = ''.github/workflows/'' @ n @ ''.yml'',
      wf_state = ''active'', wf_created_at = ''2024-01-01T00:00:00Z'',
      wf_updated_at = ''2024-01-02T00:00:00Z'', wf_html_url = ''https://example.test/'' @ n\<rparr>"

definition demo_run :: "nat \<Rightarrow> run" where
  "demo_run i =
     \<lparr>run_id = i, run_status = ''completed'', run_conclusion = Some ''success'',
      run_event = ''push'', run_head_branch = Some ''main'',
      run_created_at = ''2024-02-01T00:00:00Z'', run_updated_at = ''2024-02-01T00:05:00Z'',
      run_html_url = ''https://example.test/run'', run_actor_login = Some ''alice''\<rparr>"

definition repoApi :: repository where
  "repoApi = \<lparr>repo_owner_login = Some ''acme'', repo_name = ''api''\<rparr>"

definition repoVault :: repository where
  "repoVault = \<lparr>repo_owner_login = Some ''acme'', repo_name = ''vault''\<rparr>"

definition repoWeb :: repository where
  "repoWeb = \<lparr>repo_owner_login = None, repo_name = ''web''\<rparr>"

definition repoDown :: repository where
  "repoDown = \<lparr>repo_owner_login = Some ''acme'', repo_name = ''down''\<rparr>"

definition repoHello :: repository where
  "repoHello = \<lparr>repo_owner_login = Some ''octocat'', repo_name = ''hello''\<rparr>"

definition demo_step :: "nat \<Rightarrow> string \<Rightarrow> step" where
  "demo_step n name =
     \<lparr>step_number = n, step_name = name, step_status = ''completed'',
      step_conclusion = Some ''success'', step_started_at = Some ''10:00'',
      step_completed_at = None\<rparr>"

definition demo_job :: job where
  "demo_job =
     \<lparr>job_id = 7, job_name = ''build'', job_status = ''completed'',
      job_conclusion = Some ''failure'', job_started_at = Some ''10:00'',
      job_completed_at = Some ''10:09'',
      job_steps = Some [demo_step 2 ''compile'', demo_step 1 ''checkout'', demo_step 3 ''test'']\<rparr>"

definition demo_world :: world where
  "demo_world =
     \<lparr>db_findById = demo_db,
      crypto_decipher = demo_decipher,
      env_GITHUB_PAT = Some ''ghp_env'',
      gh_user = (\<lambda>t. if demo_valid t then Inr () else Inl (httpError 401 ''Bad credentials'')),
      gh_org_repos = (\<lambda>org t.
         if \<not> demo_valid t then Inl (httpError 401 ''Bad credentials'')
         else if org = ''acme'' then Inr [repoApi, repoVault, repoWeb]
         else if org = ''ops'' then Inr [repoApi, repoDown, repoWeb]
         else if org = ''busy'' then Inl (httpError 500 ''Server Error'')
         else Inl (httpError 404 ''Not Found'')),
      gh_user_repos = (\<lambda>org t.
         if org = ''octocat'' then Inr [repoHello] else Inl (httpError 404 ''Not Found'')),
      gh_workflows = (\<lambda>owner repo t.
         if repo = ''api'' then Inr (Some [demo_workflow 11 ''build'', demo_workflow 12 ''nightly''])
         else if repo = ''vault'' then Inl (httpError 403 ''Resource not accessible'')
         else if repo = ''web'' then Inr (Some [demo_workflow 21 ''deploy''])
         else if repo = ''hello'' then Inr None
         else if repo = ''down'' then Inl (httpError 502 ''Bad Gateway'')
         else Inl (httpError 404 ''Not Found'')),
      gh_runs = (\<lambda>owner repo i t.
         if i = 11 then Inr (Some [demo_run 101, demo_run 100])
         else if i = 12 then Inr (Some [])
         else if i = 21 then Inr (Some [demo_run 201])
         else Inl (httpError 404 ''Not Found'')),
      gh_jobs = (\<lambda>owner repo runId t.
         if runId = ''900'' then Inr (Some [demo_job]) else Inl (httpError 404 ''Not Found''))\<rparr>"

text \<open>
  The same world on a day when the remote answers the listing of \<open>vault\<close>'s workflows
  with its rate-limit message, under status 403.
\<close>

definition throttled_world :: world where
  "throttled_world =
     demo_world\<lparr>gh_workflows := (\<lambda>owner repo t.
        if repo = ''vault'' then Inl (httpError 403 ''API rate limit exceeded'')
        else gh_workflows demo_world owner repo t)\<rparr>"

definition demo_request :: request where
  "demo_request =
     \<lparr>req_user_id = None, req_session_passport_user = None, req_user_accessToken = None,
      header_x_github_token = None, query_org = Some ''acme'', query_includeRuns = None,
      query_owner = Some ''acme'', query_repo = Some ''api'', query_runId = Some ''900'',
      query_jobId = Some ''7''\<rparr>"

section \<open>Properties of the masking\<close>

lemma mask_long:
  "4 < length s \<Longrightarrow>
     mask s = Some (replicate (length s - 4) CHR ''*'' @ drop (length s - 4) s)"
  by (auto simp: mask_def)

lemma mask_short: "s \<noteq> [] \<Longrightarrow> length s \<le> 4 \<Longrightarrow> mask s = Some ''****''"
  by (simp add: mask_def)

text \<open>
  Claim C9, as stated: the masked form of a non-empty credential shows its first and its
  last character, and is never the credential itself.  The code redacts the first character
  of every credential (only the last four characters of a credential longer than four
  survive), and a credential made of asterisks comes back unchanged.
\<close>

theorem mask_first_char_counterexample:
  "mask ''ghp_abcd1234'' = Some ''********1234''
   \<and> hd ''********1234'' \<noteq> hd ''ghp_abcd1234''
   \<and> mask ''abc'' = Some ''****''
   \<and> mask ''*****'' = Some ''*****''"
  by (simp add: mask_def)

text \<open>
  Claim C9, amended: for every non-empty credential the masked form is \<open>****\<close> when the
  credential has at most four characters; otherwise it has the credential's length, shows
  the last four characters and has an asterisk at every earlier position.  The masked form
  differs from the credential whenever the credential is shorter than four characters or
  has a character other than an asterisk before its last four.
\<close>

theorem mask_shows_last_four:
  assumes "s \<noteq> []"
  shows "(length s \<le> 4 \<longrightarrow> mask s = Some ''****'')
       \<and> (4 < length s \<longrightarrow>
            (\<exists>m. mask s = Some m \<and> length m = length s
                 \<and> drop (length s - 4) m = drop (length s - 4) s
                 \<and> (\<forall>i < length s - 4. m ! i = CHR ''*'')))
       \<and> (length s < 4 \<or> (\<exists>i < length s - 4. s ! i \<noteq> CHR ''*'') \<longrightarrow> mask s \<noteq> Some s)"
proof (intro conjI impI)
  assume "length s \<le> 4"
  with assms show "mask s = Some ''****''" by (rule mask_short)
next
  assume long: "4 < length s"
  let ?m = "replicate (length s - 4) CHR ''*'' @ drop (length s - 4) s"
  have "mask s = Some ?m" using long by (rule mask_long)
  moreover have "length ?m = length s" using long by simp
  moreover have "drop (length s - 4) ?m = drop (length s - 4) s" by simp
  moreover have "\<forall>i < length s - 4. ?m ! i = CHR ''*''" by (simp add: nth_append)
  ultimately show "\<exists>m. mask s = Some m \<and> length m = length s
                 \<and> drop (length s - 4) m = drop (length s - 4) s
                 \<and> (\<forall>i < length s - 4. m ! i = CHR ''*'')"
    by blast
next
  assume h: "length s < 4 \<or> (\<exists>i < length s - 4. s ! i \<noteq> CHR ''*'')"
  show "mask s \<noteq> Some s"
  proof
    assume eq: "mask s = Some s"
    from h show False
    proof
      assume "length s < 4"
      with assms have "mask s = Some ''****''" by (simp add: mask_short)
      with eq have "s = ''****''" by simp
      with \<open>length s < 4\<close> show False by simp
    next
      assume "\<exists>i < length s - 4. s ! i \<noteq> CHR ''*''"
      then obtain i where i: "i < length s - 4" "s ! i \<noteq> CHR ''*''" by blast
      then have long: "4 < length s" by simp
      from eq mask_long [OF long]
      have "s = replicate (length s - 4) CHR ''*'' @ drop (length s - 4) s" by simp
      then have "s ! i = (replicate (length s - 4) CHR ''*'' @ drop (length s - 4) s) ! i"
        by simp
      also have "\<dots> = CHR ''*''" using i(1) by (simp add: nth_append)
      finally show False using i(2) by simp
    qed
  qed
qed

theorem mask_shows_last_four_witness:
  "mask ''abc'' = Some ''****''
   \<and> (\<exists>m. mask ''ghp_abcd1234'' = Some m
          \<and> length m = length ''ghp_abcd1234''
          \<and> drop (length ''ghp_abcd1234'' - 4) m = drop (length ''ghp_abcd1234'' - 4) ''ghp_abcd1234''
          \<and> m ! 0 = CHR ''*'' \<and> m ! 7 = CHR ''*'')
   \<and> mask ''ghp_abcd1234'' \<noteq> Some ''ghp_abcd1234''"
proof -
  have a: "''abc'' \<noteq> []" and b: "''ghp_abcd1234'' \<noteq> []" by simp_all
  have la: "length ''abc'' \<le> 4" and lb: "4 < length ''ghp_abcd1234''" by simp_all
  have z: "0 < length ''ghp_abcd1234'' - 4" "7 < length ''ghp_abcd1234'' - 4" by simp_all
  have i: "\<exists>i < length ''ghp_abcd1234'' - 4. ''ghp_abcd1234'' ! i \<noteq> CHR ''*''"
    by (rule exI [of _ 0]) simp
  from mask_shows_last_four [OF a] la have "mask ''abc'' = Some ''****''" by blast
  moreover from mask_shows_last_four [OF b] lb z
  have "\<exists>m. mask ''ghp_abcd1234'' = Some m
          \<and> length m = length ''ghp_abcd1234''
          \<and> drop (length ''ghp_abcd1234'' - 4) m = drop (length ''ghp_abcd1234'' - 4) ''ghp_abcd1234''
          \<and> m ! 0 = CHR ''*'' \<and> m ! 7 = CHR ''*''"
    by blast
  moreover from mask_shows_last_four [OF b] i
  have "mask ''ghp_abcd1234'' \<noteq> Some ''ghp_abcd1234''" by blast
  ultimately show ?thesis by blast
qed

section \<open>Properties of the token resolution\<close>

lemma selectToken_stored:
  assumes "uid \<noteq> []" "db_findById w uid = Inr u"
    "decrypt (crypto_decipher w) (patEncOf u) = Some pat" "pat \<noteq> []"
  shows "selectToken w (Some uid) hdr log = (Some pat, ''db'', log @ [DbFindById uid])"
  using assms by (simp add: selectToken_def truthy_def)

lemma selectToken_anonymous:
  "selectToken w None hdr log =
     (if truthy hdr then (hdr, ''header'', log)
      else if truthy (env_GITHUB_PAT w) then (env_GITHUB_PAT w, ''env'', log)
      else (None, ''none'', log))"
  by (simp add: selectToken_def truthy_def)

lemma selectToken_no_stored:
  assumes "uid \<noteq> []"
    and "db_findById w uid = Inl msg
         \<or> (db_findById w uid = Inr u \<and> \<not> truthy (decrypt (crypto_decipher w) (patEncOf u)))"
  shows "selectToken w (Some uid) hdr log = selectToken w None hdr (log @ [DbFindById uid])"
  using assms by (auto simp: selectToken_def truthy_def)

lemma selectToken_known:
  "uid \<noteq> [] \<Longrightarrow>
   selectToken w (Some uid) hdr log =
     (case db_findById w uid of
        Inl _ \<Rightarrow> selectToken w None hdr (log @ [DbFindById uid])
      | Inr u \<Rightarrow>
          if truthy (decrypt (crypto_decipher w) (patEncOf u))
          then (decrypt (crypto_decipher w) (patEncOf u), ''db'', log @ [DbFindById uid])
          else selectToken w None hdr (log @ [DbFindById uid]))"
  by (simp add: selectToken_def Let_def split: sum.splits)

lemma selectToken_empty_uid: "selectToken w (Some []) hdr log = selectToken w None hdr log"
  by (simp add: selectToken_def)

lemma selectToken_anon_log: "selectToken w None hdr log = (tok, src, log') \<Longrightarrow> log' = log \<and> src \<noteq> ''db'' \<and> (src = ''none'' \<or> truthy tok)"
  by (auto simp: selectToken_anonymous split: if_splits)

lemma selectToken_cases:
  assumes "selectToken w userId hdr log = (tok, src, log')"
  shows "(src = ''db'' \<and> truthy tok) \<or>
         (src \<noteq> ''db'' \<and> selectToken w None hdr log' = (tok, src, log'))"
proof (cases userId)
  case None
  with assms selectToken_anon_log [of w hdr log tok src log'] show ?thesis by simp
next
  case (Some uid)
  show ?thesis
  proof (cases "uid = []")
    case True
    with Some assms selectToken_anon_log [of w hdr log tok src log'] show ?thesis
      by (simp add: selectToken_empty_uid)
  next
    case False
    show ?thesis
    proof (cases "db_findById w uid")
      case (Inl m)
      with False Some assms
      have a: "selectToken w None hdr (log @ [DbFindById uid]) = (tok, src, log')"
        by (simp add: selectToken_known)
      from selectToken_anon_log [OF a] a show ?thesis by simp
    next
      case (Inr u)
      show ?thesis
      proof (cases "truthy (decrypt (crypto_decipher w) (patEncOf u))")
        case True
        with Inr False Some assms show ?thesis by (simp add: selectToken_known)
      next
        case nt: False
        with Inr False Some assms
        have a: "selectToken w None hdr (log @ [DbFindById uid]) = (tok, src, log')"
          by (simp add: selectToken_known)
        from selectToken_anon_log [OF a] a show ?thesis by simp
      qed
    qed
  qed
qed

lemma selectToken_log:
  assumes "selectToken w userId hdr log = (tok, src, log')"
  shows "log' = log \<or> (\<exists>uid. userId = Some uid \<and> log' = log @ [DbFindById uid])"
proof (cases userId)
  case None
  with assms selectToken_anon_log [of w hdr log tok src log'] show ?thesis by simp
next
  case (Some uid)
  show ?thesis
  proof (cases "uid = []")
    case True
    with Some assms selectToken_anon_log [of w hdr log tok src log'] show ?thesis
      by (simp add: selectToken_empty_uid)
  next
    case False
    with Some assms show ?thesis
      by (auto simp: selectToken_known split: sum.splits if_splits
               dest: selectToken_anon_log)
  qed
qed


lemma ensure_after_select:
  assumes "selectToken w userId hdr log = (Some t, src, log')" "t \<noteq> []"
  shows "ensureGitHubToken w userId hdr log =
           (case gh_user w t of
              Inr _ \<Rightarrow> (Next t src, log' @ [HttpGet User t])
            | Inl e \<Rightarrow> (Reply 401 ''Bad credentials'', log' @ [HttpGet User t]))"
  using assms by (simp add: ensureGitHubToken_def)

lemma ensure_no_token:
  assumes "selectToken w userId hdr log = (tok, src, log')" "\<not> truthy tok"
  shows "ensureGitHubToken w userId hdr log = (Reply 401 ''Missing token'', log')"
  using assms by (auto simp: ensureGitHubToken_def truthy_def split: option.splits)

text \<open>
  Claim C1: when the principal has a stored credential that decrypts to a non-empty token,
  the resolution selects it with source \<open>db\<close>, whatever the header and the environment
  hold, and with a passing self-test the middleware continues with it after exactly the
  lookup and the self-test of that token.  When the source left by the first step is not
  \<open>db\<close>, the header token is taken if present, else the environment token if present, else
  the middleware answers 401 \<open>Missing token\<close> without any remote call.
\<close>
theorem stored_credential_selected_first:
  "(uid \<noteq> [] \<and> db_findById w uid = Inr u
      \<and> decrypt (crypto_decipher w) (patEncOf u) = Some pat \<and> pat \<noteq> []
    \<longrightarrow> (\<forall>hdr env.
           selectToken (w\<lparr>env_GITHUB_PAT := env\<rparr>) (Some uid) hdr log
             = (Some pat, ''db'', log @ [DbFindById uid]))
        \<and> (gh_user w pat = Inr ()
           \<longrightarrow> (\<forall>hdr env.
                  ensureGitHubToken (w\<lparr>env_GITHUB_PAT := env\<rparr>) (Some uid) hdr log
                    = (Next pat ''db'', log @ [DbFindById uid, HttpGet User pat]))))
   \<and> (selectToken w userId hdr log = (tok, src, log') \<and> src \<noteq> ''db''
      \<longrightarrow> (truthy hdr \<longrightarrow> tok = hdr \<and> src = ''header'')
        \<and> (\<not> truthy hdr \<and> truthy (env_GITHUB_PAT w)
             \<longrightarrow> tok = env_GITHUB_PAT w \<and> src = ''env'')
        \<and> (\<not> truthy hdr \<and> \<not> truthy (env_GITHUB_PAT w)
             \<longrightarrow> tok = None \<and> src = ''none''
               \<and> ensureGitHubToken w userId hdr log = (Reply 401 ''Missing token'', log')
               \<and> (\<forall>ep t. HttpGet ep t \<in> set log' \<longrightarrow> HttpGet ep t \<in> set log)))"
proof -
  have A: "\<forall>hdr env. selectToken (w\<lparr>env_GITHUB_PAT := env\<rparr>) (Some uid) hdr log
             = (Some pat, ''db'', log @ [DbFindById uid])"
    if a: "uid \<noteq> [] \<and> db_findById w uid = Inr u
      \<and> decrypt (crypto_decipher w) (patEncOf u) = Some pat \<and> pat \<noteq> []"
    using a by (simp add: selectToken_stored)
  have B: "\<forall>hdr env. ensureGitHubToken (w\<lparr>env_GITHUB_PAT := env\<rparr>) (Some uid) hdr log
                    = (Next pat ''db'', log @ [DbFindById uid, HttpGet User pat])"
    if a: "uid \<noteq> [] \<and> db_findById w uid = Inr u
      \<and> decrypt (crypto_decipher w) (patEncOf u) = Some pat \<and> pat \<noteq> []"
      and ok: "gh_user w pat = Inr ()"
  proof (intro allI)
    fix hdr env
    have "selectToken (w\<lparr>env_GITHUB_PAT := env\<rparr>) (Some uid) hdr log
             = (Some pat, ''db'', log @ [DbFindById uid])"
      using A [OF a] by simp
    from ensure_after_select [OF this] a ok
    show "ensureGitHubToken (w\<lparr>env_GITHUB_PAT := env\<rparr>) (Some uid) hdr log
            = (Next pat ''db'', log @ [DbFindById uid, HttpGet User pat])"
      by simp
  qed
  have C: "(truthy hdr \<longrightarrow> tok = hdr \<and> src = ''header'')
        \<and> (\<not> truthy hdr \<and> truthy (env_GITHUB_PAT w)
             \<longrightarrow> tok = env_GITHUB_PAT w \<and> src = ''env'')
        \<and> (\<not> truthy hdr \<and> \<not> truthy (env_GITHUB_PAT w)
             \<longrightarrow> tok = None \<and> src = ''none''
               \<and> ensureGitHubToken w userId hdr log = (Reply 401 ''Missing token'', log')
               \<and> (\<forall>ep t. HttpGet ep t \<in> set log' \<longrightarrow> HttpGet ep t \<in> set log))"
    if b: "selectToken w userId hdr log = (tok, src, log') \<and> src \<noteq> ''db''"
  proof -
    from b selectToken_cases [of w userId hdr log tok src log']
    have anon: "selectToken w None hdr log' = (tok, src, log')" by blast
    have 1: "tok = hdr \<and> src = ''header''" if "truthy hdr"
      using anon that by (simp add: selectToken_anonymous)
    have 2: "tok = env_GITHUB_PAT w \<and> src = ''env''"
      if "\<not> truthy hdr \<and> truthy (env_GITHUB_PAT w)"
      using anon that by (simp add: selectToken_anonymous)
    have 3: "tok = None \<and> src = ''none''
               \<and> ensureGitHubToken w userId hdr log = (Reply 401 ''Missing token'', log')"
      if c: "\<not> truthy hdr \<and> \<not> truthy (env_GITHUB_PAT w)"
    proof -
      from anon c have n: "tok = None \<and> src = ''none''" by (simp add: selectToken_anonymous)
      then have "\<not> truthy tok" by (simp add: truthy_def)
      with b have "ensureGitHubToken w userId hdr log = (Reply 401 ''Missing token'', log')"
        by (simp add: ensure_no_token)
      with n show ?thesis by simp
    qed
    from b selectToken_log [of w userId hdr log tok src log']
    have 4: "\<forall>ep t. HttpGet ep t \<in> set log' \<longrightarrow> HttpGet ep t \<in> set log" by auto
    from 1 2 3 4 show ?thesis by blast
  qed
  from A B C show ?thesis by blast
qed

lemma demo_decrypt_alice [simp]: "decrypt demo_decipher ''aXY=:dGFn:ghp_alice'' = Some ''ghp_alice''"
  by (simp add: decrypt_def demo_decipher_def)

theorem stored_credential_selected_first_witness:
  "ensureGitHubToken demo_world (Some ''alice'') (Some ''ghp_header'') []
     = (Next ''ghp_alice'' ''db'', [DbFindById ''alice'', HttpGet User ''ghp_alice''])
   \<and> selectToken demo_world None (Some ''ghp_header'') [] = (Some ''ghp_header'', ''header'', [])
   \<and> selectToken demo_world None None [] = (Some ''ghp_env'', ''env'', [])
   \<and> ensureGitHubToken (demo_world\<lparr>env_GITHUB_PAT := None\<rparr>) (Some ''erin'') None []
       = (Reply 401 ''Missing token'', [DbFindById ''erin''])"
proof -
  have a: "''alice'' \<noteq> [] \<and> db_findById demo_world ''alice''
             = Inr (Some \<lparr>github_patEnc = Some ''aXY=:dGFn:ghp_alice''\<rparr>)
           \<and> decrypt (crypto_decipher demo_world)
               (patEncOf (Some \<lparr>github_patEnc = Some ''aXY=:dGFn:ghp_alice''\<rparr>)) = Some ''ghp_alice''
           \<and> ''ghp_alice'' \<noteq> []"
    by (simp add: demo_world_def demo_db_def patEncOf_def or_else_def)
  have ok: "gh_user demo_world ''ghp_alice'' = Inr ()"
    by (simp add: demo_world_def demo_valid_def)
  have "ensureGitHubToken (demo_world\<lparr>env_GITHUB_PAT := Some ''ghp_env''\<rparr>) (Some ''alice'') (Some ''ghp_header'') []
     = (Next ''ghp_alice'' ''db'', [] @ [DbFindById ''alice'', HttpGet User ''ghp_alice''])"
    using stored_credential_selected_first [of "''alice''" demo_world _ "''ghp_alice''" "[]"] a ok
    by blast
  moreover have "demo_world\<lparr>env_GITHUB_PAT := Some ''ghp_env''\<rparr> = demo_world"
    by (simp add: demo_world_def)
  ultimately have 1: "ensureGitHubToken demo_world (Some ''alice'') (Some ''ghp_header'') []
     = (Next ''ghp_alice'' ''db'', [DbFindById ''alice'', HttpGet User ''ghp_alice''])"
    by simp
  have s2: "selectToken demo_world None (Some ''ghp_header'') [] = (Some ''ghp_header'', ''header'', [])"
    by (simp add: selectToken_anonymous truthy_def)
  have s3: "selectToken demo_world None None [] = (Some ''ghp_env'', ''env'', [])"
    by (simp add: selectToken_anonymous truthy_def demo_world_def)
  have s4: "selectToken (demo_world\<lparr>env_GITHUB_PAT := None\<rparr>) (Some ''erin'') None []
              = (None, ''none'', [DbFindById ''erin''])"
    by (simp add: selectToken_known selectToken_anonymous truthy_def demo_world_def demo_db_def
          patEncOf_def decrypt_def)
  have 4: "ensureGitHubToken (demo_world\<lparr>env_GITHUB_PAT := None\<rparr>) (Some ''erin'') None []
       = (Reply 401 ''Missing token'', [DbFindById ''erin''])"
    using stored_credential_selected_first
            [of _ "demo_world\<lparr>env_GITHUB_PAT := None\<rparr>" _ _ "[]" "Some ''erin''" None
                None "''none''" "[DbFindById ''erin'']"] s4
    by (simp add: truthy_def)
  from 1 s2 s3 4 show ?thesis by blast
qed


text \<open>
  What claim C2 says holds behind \<open>ensureGitHubToken\<close>: whichever source gave the
  selected token, the self-test of exactly that token is the next call; when it is rejected
  the answer is 401 \<open>Bad credentials\<close> and nothing more is called, and when it passes the
  handler runs with that token.  For a principal whose stored credential fails the
  self-test the answer is that 401 whatever the header and the environment hold.
\<close>

theorem selftest_gates_selected_token:
  "(selectToken w userId hdr log = (Some t, src, log') \<and> t \<noteq> []
     \<longrightarrow> (gh_user w t = Inr ()
            \<longrightarrow> ensureGitHubToken w userId hdr log = (Next t src, log' @ [HttpGet User t]))
       \<and> (\<forall>e. gh_user w t = Inl e
            \<longrightarrow> ensureGitHubToken w userId hdr log
                  = (Reply 401 ''Bad credentials'', log' @ [HttpGet User t])))
   \<and> (uid \<noteq> [] \<and> db_findById w uid = Inr u
        \<and> decrypt (crypto_decipher w) (patEncOf u) = Some pat \<and> pat \<noteq> []
        \<and> gh_user w pat = Inl e
      \<longrightarrow> (\<forall>hdr env.
             ensureGitHubToken (w\<lparr>env_GITHUB_PAT := env\<rparr>) (Some uid) hdr log
               = (Reply 401 ''Bad credentials'', log @ [DbFindById uid, HttpGet User pat])))
   \<and> (selectToken w (maybeAuth req) (header_x_github_token req) [] = (Some t, src, log')
        \<and> t \<noteq> []
      \<longrightarrow> (gh_user w t = Inr ()
            \<longrightarrow> githubPipelines w req = pipelinesHandler w req t (log' @ [HttpGet User t]))
        \<and> (\<forall>e. gh_user w t = Inl e
            \<longrightarrow> githubPipelines w req
                  = (JsonError 401 ''Bad credentials'', log' @ [HttpGet User t])))"
proof -
  have A: "(gh_user w t = Inr ()
            \<longrightarrow> ensureGitHubToken w userId hdr log = (Next t src, log' @ [HttpGet User t]))
       \<and> (\<forall>e. gh_user w t = Inl e
            \<longrightarrow> ensureGitHubToken w userId hdr log
                  = (Reply 401 ''Bad credentials'', log' @ [HttpGet User t]))"
    if "selectToken w userId hdr log = (Some t, src, log') \<and> t \<noteq> []"
    for userId hdr log
    using that by (simp add: ensure_after_select)
  have B: "\<forall>hdr env.
             ensureGitHubToken (w\<lparr>env_GITHUB_PAT := env\<rparr>) (Some uid) hdr log
               = (Reply 401 ''Bad credentials'', log @ [DbFindById uid, HttpGet User pat])"
    if b: "uid \<noteq> [] \<and> db_findById w uid = Inr u
        \<and> decrypt (crypto_decipher w) (patEncOf u) = Some pat \<and> pat \<noteq> []
        \<and> gh_user w pat = Inl e"
  proof (intro allI)
    fix hdr env
    from b have "selectToken (w\<lparr>env_GITHUB_PAT := env\<rparr>) (Some uid) hdr log
             = (Some pat, ''db'', log @ [DbFindById uid])"
      by (simp add: selectToken_stored)
    from ensure_after_select [OF this] b
    show "ensureGitHubToken (w\<lparr>env_GITHUB_PAT := env\<rparr>) (Some uid) hdr log
               = (Reply 401 ''Bad credentials'', log @ [DbFindById uid, HttpGet User pat])"
      by simp
  qed
  have C: "(gh_user w t = Inr ()
            \<longrightarrow> githubPipelines w req = pipelinesHandler w req t (log' @ [HttpGet User t]))
        \<and> (\<forall>e. gh_user w t = Inl e
            \<longrightarrow> githubPipelines w req
                  = (JsonError 401 ''Bad credentials'', log' @ [HttpGet User t]))"
    if c: "selectToken w (maybeAuth req) (header_x_github_token req) [] = (Some t, src, log')
        \<and> t \<noteq> []"
    using A [OF c] by (auto simp: githubPipelines_def)
  from A B C show ?thesis by blast
qed

lemma demo_decrypt_revoked [simp]:
  "decrypt demo_decipher ''aXY=:dGFn:ghp_revoked'' = Some ''ghp_revoked''"
  by (simp add: decrypt_def demo_decipher_def)

theorem selftest_gates_selected_token_witness:
  "ensureGitHubToken demo_world (Some ''bob'') (Some ''ghp_header'') []
     = (Reply 401 ''Bad credentials'', [DbFindById ''bob'', HttpGet User ''ghp_revoked''])
   \<and> ensureGitHubToken demo_world None (Some ''ghp_header'') []
     = (Next ''ghp_header'' ''header'', [HttpGet User ''ghp_header''])
   \<and> githubPipelines demo_world (demo_request\<lparr>header_x_github_token := Some ''ghp_stale''\<rparr>)
     = (JsonError 401 ''Bad credentials'', [HttpGet User ''ghp_stale''])"
proof -
  have b: "''bob'' \<noteq> [] \<and> db_findById demo_world ''bob''
             = Inr (Some \<lparr>github_patEnc = Some ''aXY=:dGFn:ghp_revoked''\<rparr>)
           \<and> decrypt (crypto_decipher demo_world)
               (patEncOf (Some \<lparr>github_patEnc = Some ''aXY=:dGFn:ghp_revoked''\<rparr>))
              = Some ''ghp_revoked''
           \<and> ''ghp_revoked'' \<noteq> []
           \<and> gh_user demo_world ''ghp_revoked'' = Inl (httpError 401 ''Bad credentials'')"
    by (simp add: demo_world_def demo_db_def patEncOf_def or_else_def demo_valid_def)
  have w: "demo_world\<lparr>env_GITHUB_PAT := Some ''ghp_env''\<rparr> = demo_world"
    by (simp add: demo_world_def)
  have "ensureGitHubToken (demo_world\<lparr>env_GITHUB_PAT := Some ''ghp_env''\<rparr>) (Some ''bob'')
          (Some ''ghp_header'') []
     = (Reply 401 ''Bad credentials'', [] @ [DbFindById ''bob'', HttpGet User ''ghp_revoked''])"
    using selftest_gates_selected_token
            [of demo_world _ _ _ _ _ _ "''bob''" _ "''ghp_revoked''" _ _] b
    by blast
  with w have 1: "ensureGitHubToken demo_world (Some ''bob'') (Some ''ghp_header'') []
     = (Reply 401 ''Bad credentials'', [DbFindById ''bob'', HttpGet User ''ghp_revoked''])"
    by simp
  have s: "selectToken demo_world None (Some ''ghp_header'') []
             = (Some ''ghp_header'', ''header'', []) \<and> ''ghp_header'' \<noteq> []"
    by (simp add: selectToken_anonymous truthy_def)
  have ok: "gh_user demo_world ''ghp_header'' = Inr ()"
    by (simp add: demo_world_def demo_valid_def)
  have 2: "ensureGitHubToken demo_world None (Some ''ghp_header'') []
     = (Next ''ghp_header'' ''header'', [HttpGet User ''ghp_header''])"
    using selftest_gates_selected_token
            [of demo_world None "Some ''ghp_header''" "[]" "''ghp_header''" "''header''" "[]"]
          s ok
    by simp
  let ?req = "demo_request\<lparr>header_x_github_token := Some ''ghp_stale''\<rparr>"
  have s3: "selectToken demo_world (maybeAuth ?req) (header_x_github_token ?req) []
             = (Some ''ghp_stale'', ''header'', []) \<and> ''ghp_stale'' \<noteq> []"
    by (simp add: selectToken_anonymous truthy_def maybeAuth_def demo_request_def)
  have bad: "gh_user demo_world ''ghp_stale'' = Inl (httpError 401 ''Bad credentials'')"
    by (simp add: demo_world_def demo_valid_def)
  have 3: "githubPipelines demo_world ?req
     = (JsonError 401 ''Bad credentials'', [HttpGet User ''ghp_stale''])"
    using selftest_gates_selected_token
            [of demo_world _ _ _ "''ghp_stale''" "''header''" "[]" _ _ _ _ ?req]
          s3 bad
    by simp
  from 1 2 3 show ?thesis by blast
qed

text \<open>
  Claim C2 at the top-level route of routes/pipeline.js, which aggregates with the same
  loops: it takes the first present of the OAuth, header and environment tokens and uses it
  at once.  For a request with a header token the calls begin with the listing of the
  repositories and hold no self-test, where the sibling route \<open>/github/pipelines\<close> begins
  with the self-test; a stale header token reaches the listing of the repositories, and the
  401 of the answer is the remote's answer to that listing.
\<close>

theorem top_level_route_uses_token_without_selftest:
  "pipelineRoute demo_world
     (demo_request\<lparr>header_x_github_token := Some ''ghp_header'', query_org := Some ''octocat''\<rparr>)
   = (JsonPipelines [],
      [HttpGet (OrgRepos ''octocat'') ''ghp_header'', HttpGet (UserRepos ''octocat'') ''ghp_header'',
       HttpGet (Workflows ''octocat'' ''hello'') ''ghp_header''])
   \<and> githubPipelines demo_world
     (demo_request\<lparr>header_x_github_token := Some ''ghp_header'', query_org := Some ''octocat''\<rparr>)
   = (JsonPipelines [],
      [HttpGet User ''ghp_header'',
       HttpGet (OrgRepos ''octocat'') ''ghp_header'', HttpGet (UserRepos ''octocat'') ''ghp_header'',
       HttpGet (Workflows ''octocat'' ''hello'') ''ghp_header''])
   \<and> pipelineRoute demo_world (demo_request\<lparr>header_x_github_token := Some ''ghp_stale''\<rparr>)
   = (JsonError 401 ''Bad credentials'', [HttpGet (OrgRepos ''acme'') ''ghp_stale''])"
proof -
  have 1: "pipelineRoute demo_world
     (demo_request\<lparr>header_x_github_token := Some ''ghp_header'', query_org := Some ''octocat''\<rparr>)
   = (JsonPipelines [],
      [HttpGet (OrgRepos ''octocat'') ''ghp_header'', HttpGet (UserRepos ''octocat'') ''ghp_header'',
       HttpGet (Workflows ''octocat'' ''hello'') ''ghp_header''])"
    by (simp add: pipelineRoute_def Let_def demo_request_def truthy_def or_else_def aggregate_def
          listRepos_def demo_world_def demo_valid_def httpError_def repoBody_def ownerOf_def
          repoHello_def)
  have 2: "githubPipelines demo_world
     (demo_request\<lparr>header_x_github_token := Some ''ghp_header'', query_org := Some ''octocat''\<rparr>)
   = (JsonPipelines [],
      [HttpGet User ''ghp_header'',
       HttpGet (OrgRepos ''octocat'') ''ghp_header'', HttpGet (UserRepos ''octocat'') ''ghp_header'',
       HttpGet (Workflows ''octocat'' ''hello'') ''ghp_header''])"
    by (simp add: githubPipelines_def maybeAuth_def ensureGitHubToken_def selectToken_anonymous
          pipelinesHandler_def includeRunsOf_def toLowerCase_def lower_char_def
          demo_request_def truthy_def or_else_def aggregate_def
          listRepos_def demo_world_def demo_valid_def httpError_def repoBody_def ownerOf_def
          repoHello_def)
  have 3: "pipelineRoute demo_world (demo_request\<lparr>header_x_github_token := Some ''ghp_stale''\<rparr>)
   = (JsonError 401 ''Bad credentials'', [HttpGet (OrgRepos ''acme'') ''ghp_stale''])"
    by (simp add: pipelineRoute_def Let_def demo_request_def truthy_def or_else_def aggregate_def
          listRepos_def demo_world_def demo_valid_def httpError_def errorReply_def)
  from 1 2 3 show ?thesis by blast
qed

text \<open>
  Claim C10: when the lookup of a known principal throws, or the stored payload does not
  decrypt, the resolution continues exactly as the anonymous one does (after the recorded
  lookup): the header token if present, else the environment token.
\<close>
theorem lookup_failure_falls_through:
  "uid \<noteq> []
   \<and> (db_findById w uid = Inl msg
      \<or> (db_findById w uid = Inr u \<and> decrypt (crypto_decipher w) (patEncOf u) = None))
   \<longrightarrow> selectToken w (Some uid) hdr log = selectToken w None hdr (log @ [DbFindById uid])
     \<and> ensureGitHubToken w (Some uid) hdr log
         = ensureGitHubToken w None hdr (log @ [DbFindById uid])
     \<and> (truthy hdr
        \<longrightarrow> selectToken w (Some uid) hdr log = (hdr, ''header'', log @ [DbFindById uid]))
     \<and> (\<not> truthy hdr \<and> truthy (env_GITHUB_PAT w)
        \<longrightarrow> selectToken w (Some uid) hdr log
              = (env_GITHUB_PAT w, ''env'', log @ [DbFindById uid]))"
proof (intro impI)
  assume a: "uid \<noteq> []
   \<and> (db_findById w uid = Inl msg
      \<or> (db_findById w uid = Inr u \<and> decrypt (crypto_decipher w) (patEncOf u) = None))"
  then have "db_findById w uid = Inl msg
         \<or> (db_findById w uid = Inr u \<and> \<not> truthy (decrypt (crypto_decipher w) (patEncOf u)))"
    by (auto simp: truthy_def)
  with a have s: "selectToken w (Some uid) hdr log
                    = selectToken w None hdr (log @ [DbFindById uid])"
    by (simp add: selectToken_no_stored)
  then have e: "ensureGitHubToken w (Some uid) hdr log
         = ensureGitHubToken w None hdr (log @ [DbFindById uid])"
    by (simp add: ensureGitHubToken_def)
  from s e show "selectToken w (Some uid) hdr log = selectToken w None hdr (log @ [DbFindById uid])
     \<and> ensureGitHubToken w (Some uid) hdr log
         = ensureGitHubToken w None hdr (log @ [DbFindById uid])
     \<and> (truthy hdr
        \<longrightarrow> selectToken w (Some uid) hdr log = (hdr, ''header'', log @ [DbFindById uid]))
     \<and> (\<not> truthy hdr \<and> truthy (env_GITHUB_PAT w)
        \<longrightarrow> selectToken w (Some uid) hdr log
              = (env_GITHUB_PAT w, ''env'', log @ [DbFindById uid]))"
    by (simp add: selectToken_anonymous)
qed

theorem lookup_failure_falls_through_witness:
  "ensureGitHubToken demo_world (Some ''carol'') (Some ''ghp_header'') []
     = (Next ''ghp_header'' ''header'', [DbFindById ''carol'', HttpGet User ''ghp_header''])
   \<and> selectToken demo_world (Some ''dave'') None []
     = (Some ''ghp_env'', ''env'', [DbFindById ''dave''])"
proof -
  have c: "''carol'' \<noteq> [] \<and> (db_findById demo_world ''carol'' = Inl ''connection lost''
            \<or> (db_findById demo_world ''carol'' = Inr None
                \<and> decrypt (crypto_decipher demo_world) (patEncOf None) = None))"
    by (simp add: demo_world_def demo_db_def)
  have "ensureGitHubToken demo_world None (Some ''ghp_header'') ([] @ [DbFindById ''carol''])
     = (Next ''ghp_header'' ''header'', [DbFindById ''carol'', HttpGet User ''ghp_header''])"
    by (simp add: ensureGitHubToken_def selectToken_anonymous truthy_def demo_world_def
          demo_valid_def)
  with lookup_failure_falls_through
         [of "''carol''" demo_world "''connection lost''" None "Some ''ghp_header''" "[]"] c
  have 1: "ensureGitHubToken demo_world (Some ''carol'') (Some ''ghp_header'') []
     = (Next ''ghp_header'' ''header'', [DbFindById ''carol'', HttpGet User ''ghp_header''])"
    by simp
  have d: "''dave'' \<noteq> [] \<and> (db_findById demo_world ''dave'' = Inl []
            \<or> (db_findById demo_world ''dave'' = Inr (Some \<lparr>github_patEnc = Some ''corrupt''\<rparr>)
                \<and> decrypt (crypto_decipher demo_world)
                     (patEncOf (Some \<lparr>github_patEnc = Some ''corrupt''\<rparr>)) = None))"
    by (simp add: demo_world_def demo_db_def patEncOf_def or_else_def decrypt_def)
  have t: "\<not> truthy None \<and> truthy (env_GITHUB_PAT demo_world)"
    by (simp add: truthy_def demo_world_def)
  from lookup_failure_falls_through
         [of "''dave''" demo_world "[]" "Some \<lparr>github_patEnc = Some ''corrupt''\<rparr>" None "[]"] d t
  have "selectToken demo_world (Some ''dave'') None []
          = (env_GITHUB_PAT demo_world, ''env'', [] @ [DbFindById ''dave''])"
    by blast
  then have 2: "selectToken demo_world (Some ''dave'') None []
     = (Some ''ghp_env'', ''env'', [DbFindById ''dave''])"
    by (simp add: demo_world_def)
  from 1 2 show ?thesis by blast
qed

section \<open>Properties of the aggregation\<close>

lemma fetchLatestRun_log:
  "snd (fetchLatestRun w owner repo i t log) = log @ [HttpGet (WorkflowRuns owner repo i) t]"
  by (simp add: fetchLatestRun_def Let_def split: sum.splits option.splits list.splits)

lemma fetchLatestRun_fst:
  "fst (fetchLatestRun w owner repo i t log) = fst (fetchLatestRun w owner repo i t log')"
  by (simp add: fetchLatestRun_def Let_def split: sum.splits option.splits list.splits)

lemma wfLoop_calls_irrelevant:
  "pipelines st = pipelines st' \<Longrightarrow>
     fst (wfLoop w ir owner repo t wfs st) = fst (wfLoop w ir owner repo t wfs st')
     \<and> pipelines (snd (wfLoop w ir owner repo t wfs st))
         = pipelines (snd (wfLoop w ir owner repo t wfs st'))"
proof (induction wfs arbitrary: st st')
  case Nil
  then show ?case by simp
next
  case (Cons a wfs)
  show ?case
  proof (cases ir)
    case False
    with Cons.prems Cons.IH show ?thesis by simp
  next
    case True
    obtain r l where f: "fetchLatestRun w owner repo (wf_id a) t (calls st) = (r, l)"
      by (cases "fetchLatestRun w owner repo (wf_id a) t (calls st)")
    obtain r' l' where f': "fetchLatestRun w owner repo (wf_id a) t (calls st') = (r', l')"
      by (cases "fetchLatestRun w owner repo (wf_id a) t (calls st')")
    from f f' fetchLatestRun_fst [of w owner repo "wf_id a" t "calls st" "calls st'"]
    have rr: "r' = r" by simp
    show ?thesis
    proof (cases r)
      case (Inl e)
      with True f f' rr Cons.prems show ?thesis by simp
    next
      case (Inr lr)
      with True f f' rr Cons.prems Cons.IH show ?thesis by simp
    qed
  qed
qed


lemma repoBody_calls_irrelevant:
  assumes "pipelines st = pipelines st'"
  shows "fst (repoBody w ir org t repo st) = fst (repoBody w ir org t repo st')
     \<and> pipelines (snd (repoBody w ir org t repo st))
         = pipelines (snd (repoBody w ir org t repo st'))"
proof (cases "gh_workflows w (ownerOf org repo) (repo_name repo) t")
  case (Inl e)
  with assms show ?thesis by (simp add: repoBody_def Let_def)
next
  case (Inr wfs)
  show ?thesis
  proof (cases wfs)
    case None
    with Inr assms show ?thesis by (simp add: repoBody_def Let_def)
  next
    case (Some ws)
    have "pipelines (st\<lparr>calls := a\<rparr>) = pipelines (st'\<lparr>calls := b\<rparr>)" for a b
      using assms by simp
    from wfLoop_calls_irrelevant [OF this] Inr Some assms
    show ?thesis by (simp add: repoBody_def Let_def)
  qed
qed

lemma repoLoop_calls_irrelevant:
  "pipelines st = pipelines st' \<Longrightarrow>
     fst (repoLoop w ir org t repos st) = fst (repoLoop w ir org t repos st')
     \<and> pipelines (snd (repoLoop w ir org t repos st))
         = pipelines (snd (repoLoop w ir org t repos st'))"
proof (induction repos arbitrary: st st')
  case Nil
  then show ?case by simp
next
  case (Cons a repos)
  obtain r s1 where b: "repoBody w ir org t a st = (r, s1)"
    by (cases "repoBody w ir org t a st")
  obtain r' s1' where b': "repoBody w ir org t a st' = (r', s1')"
    by (cases "repoBody w ir org t a st'")
  from repoBody_calls_irrelevant [OF Cons.prems, of w ir org t a] b b'
  have eq: "r' = r" "pipelines s1 = pipelines s1'" by simp_all
  show ?case
  proof (cases r)
    case (Inl e)
    with b b' eq Cons.IH [OF eq(2)] show ?thesis by simp
  next
    case (Inr u)
    with b b' eq Cons.IH [OF eq(2)] show ?thesis by simp
  qed
qed

lemma repoLoop_append:
  "repoLoop w ir org t (xs @ ys) st =
     (case repoLoop w ir org t xs st of
        (Inl e, st') \<Rightarrow> (Inl e, st')
      | (Inr u, st') \<Rightarrow> repoLoop w ir org t ys st')"
proof (induction xs arbitrary: st)
  case Nil
  then show ?case by simp
next
  case (Cons a xs)
  then show ?case by (simp split: prod.splits sum.splits)
qed

lemma repoBody_rejected:
  assumes "gh_workflows w (ownerOf org k) (repo_name k) t = Inl e"
  shows "repoBody w ir org t k st
           = (Inl e, st\<lparr>calls := calls st @ [HttpGet (Workflows (ownerOf org k) (repo_name k)) t]\<rparr>)"
  using assms by (simp add: repoBody_def Let_def)

lemma repoLoop_skip:
  assumes "gh_workflows w (ownerOf org k) (repo_name k) t = Inl e" "skippable e"
  shows "repoLoop w ir org t (k # rs) st
           = repoLoop w ir org t rs
               (st\<lparr>calls := calls st @ [HttpGet (Workflows (ownerOf org k) (repo_name k)) t]\<rparr>)"
  using assms by (simp add: repoBody_rejected)

lemma repoLoop_fatal:
  assumes "gh_workflows w (ownerOf org k) (repo_name k) t = Inl e" "\<not> skippable e"
  shows "repoLoop w ir org t (k # rs) st
           = (Inl e, st\<lparr>calls := calls st @ [HttpGet (Workflows (ownerOf org k) (repo_name k)) t]\<rparr>)"
  using assms by (simp add: repoBody_rejected)

lemma repoLoop_skip_anywhere:
  assumes "gh_workflows w (ownerOf org k) (repo_name k) t = Inl e" "skippable e"
  shows "fst (repoLoop w ir org t (rs1 @ k # rs2) st) = fst (repoLoop w ir org t (rs1 @ rs2) st)
       \<and> pipelines (snd (repoLoop w ir org t (rs1 @ k # rs2) st))
           = pipelines (snd (repoLoop w ir org t (rs1 @ rs2) st))"
proof -
  obtain r s1 where p: "repoLoop w ir org t rs1 st = (r, s1)"
    by (cases "repoLoop w ir org t rs1 st")
  show ?thesis
  proof (cases r)
    case (Inl e')
    with p show ?thesis by (simp add: repoLoop_append)
  next
    case (Inr u)
    let ?s = "s1\<lparr>calls := calls s1 @ [HttpGet (Workflows (ownerOf org k) (repo_name k)) t]\<rparr>"
    have "pipelines ?s = pipelines s1" by simp
    from repoLoop_calls_irrelevant [OF this, of w ir org t rs2] Inr p
    show ?thesis by (simp add: repoLoop_append repoLoop_skip [OF assms] del: repoLoop.simps)
  qed
qed


lemma pipelinesHandler_aggregate:
  assumes "query_org req = Some org" "org \<noteq> []"
  shows "pipelinesHandler w req t log =
           (case aggregate w org (includeRunsOf (query_includeRuns req)) t log of
              (Inl err, log') \<Rightarrow> (errorReply err, log')
            | (Inr ps, log') \<Rightarrow> (JsonPipelines ps, log'))"
  using assms by (simp add: pipelinesHandler_def truthy_def or_else_def)

text \<open>
  Claim C3, as stated, has a rate-limit exhaustion abort the aggregation.  The loop looks
  at the status alone: when the remote answers the listing of a repository's workflows with
  its rate-limit message under status 403, the repository is skipped like any forbidden
  one and the handler answers with the pipelines of the others.
\<close>

theorem rate_limit_403_skipped_counterexample:
  "gh_workflows throttled_world ''acme'' ''vault'' ''ghp_env''
     = Inl (httpError 403 ''API rate limit exceeded'')
   \<and> pipelinesHandler throttled_world (demo_request\<lparr>query_includeRuns := Some ''false''\<rparr>)
        ''ghp_env'' []
     = (JsonPipelines [mkPipeline ''acme'' ''api'' (demo_workflow 11 ''build'') None,
                       mkPipeline ''acme'' ''api'' (demo_workflow 12 ''nightly'') None,
                       mkPipeline ''acme'' ''web'' (demo_workflow 21 ''deploy'') None],
        [HttpGet (OrgRepos ''acme'') ''ghp_env'',
         HttpGet (Workflows ''acme'' ''api'') ''ghp_env'',
         HttpGet (Workflows ''acme'' ''vault'') ''ghp_env'',
         HttpGet (Workflows ''acme'' ''web'') ''ghp_env''])"
proof -
  have 1: "gh_workflows throttled_world ''acme'' ''vault'' ''ghp_env''
     = Inl (httpError 403 ''API rate limit exceeded'')"
    by (simp add: throttled_world_def)
  have sk: "skippable (httpError 403 ''API rate limit exceeded'')"
    by (simp add: skippable_def httpError_def)
  have ir: "includeRunsOf (Some ''false'') = False"
    by (simp add: includeRunsOf_def toLowerCase_def lower_char_def)
  have l: "listRepos throttled_world ''acme'' ''ghp_env'' []
             = (Inr [repoApi, repoVault, repoWeb], [HttpGet (OrgRepos ''acme'') ''ghp_env''])"
    by (simp add: listRepos_def throttled_world_def demo_world_def demo_valid_def)
  have a: "repoBody throttled_world False ''acme'' ''ghp_env'' repoApi st
     = (Inr (), st\<lparr>pipelines := pipelines st
                      @ [mkPipeline ''acme'' ''api'' (demo_workflow 11 ''build'') None,
                         mkPipeline ''acme'' ''api'' (demo_workflow 12 ''nightly'') None],
                   calls := calls st @ [HttpGet (Workflows ''acme'' ''api'') ''ghp_env'']\<rparr>)" for st
    by (simp add: repoBody_def Let_def ownerOf_def or_else_def repoApi_def throttled_world_def
          demo_world_def)
  have v: "repoBody throttled_world False ''acme'' ''ghp_env'' repoVault st
     = (Inl (httpError 403 ''API rate limit exceeded''),
        st\<lparr>calls := calls st @ [HttpGet (Workflows ''acme'' ''vault'') ''ghp_env'']\<rparr>)" for st
    by (simp add: repoBody_def Let_def ownerOf_def or_else_def repoVault_def throttled_world_def)
  have w: "repoBody throttled_world False ''acme'' ''ghp_env'' repoWeb st
     = (Inr (), st\<lparr>pipelines := pipelines st
                      @ [mkPipeline ''acme'' ''web'' (demo_workflow 21 ''deploy'') None],
                   calls := calls st @ [HttpGet (Workflows ''acme'' ''web'') ''ghp_env'']\<rparr>)" for st
    by (simp add: repoBody_def Let_def ownerOf_def or_else_def repoWeb_def throttled_world_def
          demo_world_def)
  have 2: "pipelinesHandler throttled_world (demo_request\<lparr>query_includeRuns := Some ''false''\<rparr>)
        ''ghp_env'' []
     = (JsonPipelines [mkPipeline ''acme'' ''api'' (demo_workflow 11 ''build'') None,
                       mkPipeline ''acme'' ''api'' (demo_workflow 12 ''nightly'') None,
                       mkPipeline ''acme'' ''web'' (demo_workflow 21 ''deploy'') None],
        [HttpGet (OrgRepos ''acme'') ''ghp_env'',
         HttpGet (Workflows ''acme'' ''api'') ''ghp_env'',
         HttpGet (Workflows ''acme'' ''vault'') ''ghp_env'',
         HttpGet (Workflows ''acme'' ''web'') ''ghp_env''])"
    by (simp add: pipelinesHandler_def demo_request_def truthy_def or_else_def ir aggregate_def
          l a v w sk)
  from 1 2 show ?thesis by blast
qed

text \<open>
  Claim C3, amended: the failure classes are told apart by the status of the rejection
  alone.  When the listing of repository \<open>k\<close>'s workflows is rejected with status 403,
  404 or 409, whatever the cause, the loop over the repositories ends as it does without
  \<open>k\<close>: the same outcome and the same pipelines, in the same order.  When it is rejected
  with any other status, or without a response, and the repositories before \<open>k\<close> were
  processed, the loop stops there with that error, and the handler answers with the error's
  status (500 when it has none) and message instead of a pipeline list.
\<close>

theorem repository_failure_isolated:
  "gh_workflows w (ownerOf org k) (repo_name k) t = Inl e
   \<longrightarrow> (resp_status e \<in> {Some 403, Some 404, Some 409}
        \<longrightarrow> fst (repoLoop w ir org t (rs1 @ k # rs2) st)
              = fst (repoLoop w ir org t (rs1 @ rs2) st)
          \<and> pipelines (snd (repoLoop w ir org t (rs1 @ k # rs2) st))
              = pipelines (snd (repoLoop w ir org t (rs1 @ rs2) st)))
     \<and> (resp_status e \<notin> {Some 403, Some 404, Some 409}
        \<longrightarrow> (\<forall>st1. repoLoop w ir org t rs1 st = (Inr (), st1)
               \<longrightarrow> repoLoop w ir org t (rs1 @ k # rs2) st
                     = (Inl e, st1\<lparr>calls := calls st1
                          @ [HttpGet (Workflows (ownerOf org k) (repo_name k)) t]\<rparr>))
          \<and> (\<forall>req log log1 st1.
                query_org req = Some org \<and> org \<noteq> []
                \<and> includeRunsOf (query_includeRuns req) = ir
                \<and> listRepos w org t log = (Inr (rs1 @ k # rs2), log1)
                \<and> repoLoop w ir org t rs1 \<lparr>pipelines = [], calls = log1\<rparr> = (Inr (), st1)
               \<longrightarrow> pipelinesHandler w req t log
                     = (errorReply e,
                        calls st1 @ [HttpGet (Workflows (ownerOf org k) (repo_name k)) t])))"
proof (intro impI)
  assume rej: "gh_workflows w (ownerOf org k) (repo_name k) t = Inl e"
  have A: "fst (repoLoop w ir org t (rs1 @ k # rs2) st)
              = fst (repoLoop w ir org t (rs1 @ rs2) st)
          \<and> pipelines (snd (repoLoop w ir org t (rs1 @ k # rs2) st))
              = pipelines (snd (repoLoop w ir org t (rs1 @ rs2) st))"
    if "resp_status e \<in> {Some 403, Some 404, Some 409}"
    using that by (intro repoLoop_skip_anywhere [OF rej]) (simp add: skippable_def)
  have B: "repoLoop w ir org t (rs1 @ k # rs2) st'
             = (Inl e, st1\<lparr>calls := calls st1
                          @ [HttpGet (Workflows (ownerOf org k) (repo_name k)) t]\<rparr>)"
    if f: "resp_status e \<notin> {Some 403, Some 404, Some 409}"
      and p: "repoLoop w ir org t rs1 st' = (Inr (), st1)" for st' st1
  proof -
    from f have "\<not> skippable e" by (simp add: skippable_def)
    from repoLoop_fatal [OF rej this] p show ?thesis
      by (simp add: repoLoop_append del: repoLoop.simps)
  qed
  have C: "pipelinesHandler w req t log
             = (errorReply e, calls st1 @ [HttpGet (Workflows (ownerOf org k) (repo_name k)) t])"
    if f: "resp_status e \<notin> {Some 403, Some 404, Some 409}"
      and h: "query_org req = Some org \<and> org \<noteq> []
                \<and> includeRunsOf (query_includeRuns req) = ir
                \<and> listRepos w org t log = (Inr (rs1 @ k # rs2), log1)
                \<and> repoLoop w ir org t rs1 \<lparr>pipelines = [], calls = log1\<rparr> = (Inr (), st1)"
    for req log log1 st1
  proof -
    from h B [OF f, of "\<lparr>pipelines = [], calls = log1\<rparr>" st1]
    have "aggregate w org ir t log
            = (Inl e, calls st1 @ [HttpGet (Workflows (ownerOf org k) (repo_name k)) t])"
      by (simp add: aggregate_def del: repoLoop.simps)
    with h show ?thesis by (simp add: pipelinesHandler_aggregate)
  qed
  from A B C
  show "(resp_status e \<in> {Some 403, Some 404, Some 409}
        \<longrightarrow> fst (repoLoop w ir org t (rs1 @ k # rs2) st)
              = fst (repoLoop w ir org t (rs1 @ rs2) st)
          \<and> pipelines (snd (repoLoop w ir org t (rs1 @ k # rs2) st))
              = pipelines (snd (repoLoop w ir org t (rs1 @ rs2) st)))
     \<and> (resp_status e \<notin> {Some 403, Some 404, Some 409}
        \<longrightarrow> (\<forall>st1. repoLoop w ir org t rs1 st = (Inr (), st1)
               \<longrightarrow> repoLoop w ir org t (rs1 @ k # rs2) st
                     = (Inl e, st1\<lparr>calls := calls st1
                          @ [HttpGet (Workflows (ownerOf org k) (repo_name k)) t]\<rparr>))
          \<and> (\<forall>req log log1 st1.
                query_org req = Some org \<and> org \<noteq> []
                \<and> includeRunsOf (query_includeRuns req) = ir
                \<and> listRepos w org t log = (Inr (rs1 @ k # rs2), log1)
                \<and> repoLoop w ir org t rs1 \<lparr>pipelines = [], calls = log1\<rparr> = (Inr (), st1)
               \<longrightarrow> pipelinesHandler w req t log
                     = (errorReply e,
                        calls st1 @ [HttpGet (Workflows (ownerOf org k) (repo_name k)) t])))"
    by blast
qed

lemma demo_api_norun:
  "repoLoop demo_world False ''acme'' t [repoApi] st
     = (Inr (), st\<lparr>pipelines := pipelines st
                      @ [mkPipeline ''acme'' ''api'' (demo_workflow 11 ''build'') None,
                         mkPipeline ''acme'' ''api'' (demo_workflow 12 ''nightly'') None],
                   calls := calls st @ [HttpGet (Workflows ''acme'' ''api'') t]\<rparr>)"
  by (simp add: repoBody_def Let_def ownerOf_def or_else_def repoApi_def demo_world_def)

lemma demo_web_norun:
  "repoLoop demo_world False ''acme'' t [repoWeb] st
     = (Inr (), st\<lparr>pipelines := pipelines st
                      @ [mkPipeline ''acme'' ''web'' (demo_workflow 21 ''deploy'') None],
                   calls := calls st @ [HttpGet (Workflows ''acme'' ''web'') t]\<rparr>)"
  by (simp add: repoBody_def Let_def ownerOf_def or_else_def repoWeb_def demo_world_def)

theorem repository_failure_isolated_witness:
  "map triple (pipelines (snd (repoLoop demo_world False ''acme'' ''ghp_env''
                                ([repoApi] @ repoVault # [repoWeb]) \<lparr>pipelines = [], calls = []\<rparr>)))
     = [(''acme'', ''api'', 11), (''acme'', ''api'', 12), (''acme'', ''web'', 21)]
   \<and> fst (repoLoop demo_world False ''acme'' ''ghp_env''
            ([repoApi] @ repoVault # [repoWeb]) \<lparr>pipelines = [], calls = []\<rparr>) = Inr ()
   \<and> pipelinesHandler demo_world
        (demo_request\<lparr>query_org := Some ''ops'', query_includeRuns := Some ''false''\<rparr>) ''ghp_env'' []
     = (JsonError 502 ''Bad Gateway'',
        [HttpGet (OrgRepos ''ops'') ''ghp_env'', HttpGet (Workflows ''acme'' ''api'') ''ghp_env'',
         HttpGet (Workflows ''acme'' ''down'') ''ghp_env''])"
proof -
  let ?st = "\<lparr>pipelines = [], calls = []\<rparr>"
  have v: "gh_workflows demo_world (ownerOf ''acme'' repoVault) (repo_name repoVault) ''ghp_env''
             = Inl (httpError 403 ''Resource not accessible'')"
    by (simp add: demo_world_def repoVault_def)
  have sv: "resp_status (httpError 403 ''Resource not accessible'')
              \<in> {Some 403, Some 404, Some 409}"
    by (simp add: httpError_def)
  have two: "repoLoop demo_world False ''acme'' ''ghp_env'' ([repoApi] @ [repoWeb]) ?st
       = (Inr (), \<lparr>pipelines = [mkPipeline ''acme'' ''api'' (demo_workflow 11 ''build'') None,
                                mkPipeline ''acme'' ''api'' (demo_workflow 12 ''nightly'') None,
                                mkPipeline ''acme'' ''web'' (demo_workflow 21 ''deploy'') None],
                   calls = [HttpGet (Workflows ''acme'' ''api'') ''ghp_env'',
                            HttpGet (Workflows ''acme'' ''web'') ''ghp_env'']\<rparr>)"
    by (simp only: repoLoop_append demo_api_norun) (simp add: demo_web_norun del: repoLoop.simps)
  from repository_failure_isolated
         [of demo_world "''acme''" repoVault "''ghp_env''" _ False "[repoApi]" "[repoWeb]" ?st]
       v sv
  have "fst (repoLoop demo_world False ''acme'' ''ghp_env'' ([repoApi] @ repoVault # [repoWeb]) ?st)
          = fst (repoLoop demo_world False ''acme'' ''ghp_env'' ([repoApi] @ [repoWeb]) ?st)
        \<and> pipelines (snd (repoLoop demo_world False ''acme'' ''ghp_env''
                              ([repoApi] @ repoVault # [repoWeb]) ?st))
          = pipelines (snd (repoLoop demo_world False ''acme'' ''ghp_env''
                              ([repoApi] @ [repoWeb]) ?st))"
    by blast
  with two have 1: "map triple (pipelines (snd (repoLoop demo_world False ''acme'' ''ghp_env''
                                ([repoApi] @ repoVault # [repoWeb]) ?st)))
     = [(''acme'', ''api'', 11), (''acme'', ''api'', 12), (''acme'', ''web'', 21)]
   \<and> fst (repoLoop demo_world False ''acme'' ''ghp_env''
            ([repoApi] @ repoVault # [repoWeb]) ?st) = Inr ()"
    by (simp add: triple_def mkPipeline_def demo_workflow_def)
  let ?req = "demo_request\<lparr>query_org := Some ''ops'', query_includeRuns := Some ''false''\<rparr>"
  have d: "gh_workflows demo_world (ownerOf ''ops'' repoDown) (repo_name repoDown) ''ghp_env''
             = Inl (httpError 502 ''Bad Gateway'')"
    by (simp add: demo_world_def repoDown_def)
  have sd: "resp_status (httpError 502 ''Bad Gateway'') \<notin> {Some 403, Some 404, Some 409}"
    by (simp add: httpError_def)
  have ir: "includeRunsOf (query_includeRuns ?req) = False"
    by (simp add: includeRunsOf_def toLowerCase_def lower_char_def)
  have h: "query_org ?req = Some ''ops'' \<and> ''ops'' \<noteq> []
           \<and> includeRunsOf (query_includeRuns ?req) = False
           \<and> listRepos demo_world ''ops'' ''ghp_env'' []
               = (Inr ([repoApi] @ repoDown # [repoWeb]), [HttpGet (OrgRepos ''ops'') ''ghp_env''])
           \<and> repoLoop demo_world False ''ops'' ''ghp_env'' [repoApi]
                \<lparr>pipelines = [], calls = [HttpGet (OrgRepos ''ops'') ''ghp_env'']\<rparr>
               = (Inr (), \<lparr>pipelines = [mkPipeline ''acme'' ''api'' (demo_workflow 11 ''build'') None,
                                mkPipeline ''acme'' ''api'' (demo_workflow 12 ''nightly'') None],
                           calls = [HttpGet (OrgRepos ''ops'') ''ghp_env'',
                                    HttpGet (Workflows ''acme'' ''api'') ''ghp_env'']\<rparr>)"
    using ir
    by (simp add: listRepos_def demo_world_def demo_valid_def repoBody_def Let_def ownerOf_def
          or_else_def repoApi_def)
  from repository_failure_isolated
         [of demo_world "''ops''" repoDown "''ghp_env''" _ False "[repoApi]" "[repoWeb]" ?st]
       d sd h
  have "pipelinesHandler demo_world ?req ''ghp_env'' []
          = (errorReply (httpError 502 ''Bad Gateway''),
             calls \<lparr>pipelines = [mkPipeline ''acme'' ''api'' (demo_workflow 11 ''build'') None,
                                mkPipeline ''acme'' ''api'' (demo_workflow 12 ''nightly'') None],
                           calls = [HttpGet (OrgRepos ''ops'') ''ghp_env'',
                                    HttpGet (Workflows ''acme'' ''api'') ''ghp_env'']\<rparr>
               @ [HttpGet (Workflows (ownerOf ''ops'' repoDown) (repo_name repoDown)) ''ghp_env''])"
    by blast
  then have 2: "pipelinesHandler demo_world ?req ''ghp_env'' []
     = (JsonError 502 ''Bad Gateway'',
        [HttpGet (OrgRepos ''ops'') ''ghp_env'', HttpGet (Workflows ''acme'' ''api'') ''ghp_env'',
         HttpGet (Workflows ''acme'' ''down'') ''ghp_env''])"
    by (simp add: errorReply_def httpError_def or_else_def ownerOf_def repoDown_def)
  from 1 2 show ?thesis by blast
qed

lemma wfLoop_no_user_repos:
  "filter isUserReposCall (calls (snd (wfLoop w ir owner repo t wfs st)))
     = filter isUserReposCall (calls st)"
proof (induction wfs arbitrary: st)
  case Nil
  then show ?case by simp
next
  case (Cons a wfs)
  show ?case
  proof (cases ir)
    case False
    with Cons.IH show ?thesis by simp
  next
    case True
    obtain r l where f: "fetchLatestRun w owner repo (wf_id a) t (calls st) = (r, l)"
      by (cases "fetchLatestRun w owner repo (wf_id a) t (calls st)")
    with fetchLatestRun_log [of w owner repo "wf_id a" t "calls st"]
    have l: "l = calls st @ [HttpGet (WorkflowRuns owner repo (wf_id a)) t]" by simp
    show ?thesis
    proof (cases r)
      case (Inl e)
      with True f l show ?thesis by simp
    next
      case (Inr lr)
      with True f l Cons.IH show ?thesis by simp
    qed
  qed
qed

lemma repoBody_no_user_repos:
  "filter isUserReposCall (calls (snd (repoBody w ir org t repo st)))
     = filter isUserReposCall (calls st)"
  by (simp add: repoBody_def Let_def wfLoop_no_user_repos split: sum.splits option.splits)

lemma repoLoop_no_user_repos:
  "filter isUserReposCall (calls (snd (repoLoop w ir org t repos st)))
     = filter isUserReposCall (calls st)"
proof (induction repos arbitrary: st)
  case Nil
  then show ?case by simp
next
  case (Cons a repos)
  obtain r s1 where b: "repoBody w ir org t a st = (r, s1)"
    by (cases "repoBody w ir org t a st")
  with repoBody_no_user_repos [of w ir org t a st]
  have "filter isUserReposCall (calls s1) = filter isUserReposCall (calls st)" by simp
  with b Cons.IH [of s1] show ?case by (cases r) simp_all
qed

lemma aggregate_calls:
  "snd (aggregate w org ir t log) =
     (case listRepos w org t log of
        (Inl e, log1) \<Rightarrow> log1
      | (Inr repos, log1) \<Rightarrow> calls (snd (repoLoop w ir org t repos \<lparr>pipelines = [], calls = log1\<rparr>)))"
  by (simp add: aggregate_def split: prod.splits sum.splits)

text \<open>
  Claim C4: when the listing by organization is rejected with status 404, the listing by
  user follows it and is the answer of the enumeration, and the whole handler makes exactly
  one listing by user.  When it is rejected otherwise, the enumeration ends after that one
  call with the same error, and the handler answers with that error's status (500 when it
  has none) and message.
\<close>

theorem user_scope_retry_only_on_404:
  "gh_org_repos w org t = Inl e
   \<longrightarrow> (resp_status e = Some 404
        \<longrightarrow> listRepos w org t log
              = (gh_user_repos w org t,
                 log @ [HttpGet (OrgRepos org) t, HttpGet (UserRepos org) t])
          \<and> (\<forall>req. query_org req = Some org \<and> org \<noteq> []
                \<longrightarrow> length (filter isUserReposCall (snd (pipelinesHandler w req t log)))
                      = length (filter isUserReposCall log) + 1))
     \<and> (resp_status e \<noteq> Some 404
        \<longrightarrow> listRepos w org t log = (Inl e, log @ [HttpGet (OrgRepos org) t])
          \<and> (\<forall>req. query_org req = Some org \<and> org \<noteq> []
                \<longrightarrow> pipelinesHandler w req t log
                      = (errorReply e, log @ [HttpGet (OrgRepos org) t])))"
proof (intro impI)
  assume rej: "gh_org_repos w org t = Inl e"
  have A: "listRepos w org t log
              = (gh_user_repos w org t,
                 log @ [HttpGet (OrgRepos org) t, HttpGet (UserRepos org) t])"
    if "resp_status e = Some 404"
    using rej that by (simp add: listRepos_def)
  have B: "length (filter isUserReposCall (snd (pipelinesHandler w req t log)))
             = length (filter isUserReposCall log) + 1"
    if nf: "resp_status e = Some 404" and q: "query_org req = Some org \<and> org \<noteq> []" for req
  proof -
    from q have "snd (pipelinesHandler w req t log)
                   = snd (aggregate w org (includeRunsOf (query_includeRuns req)) t log)"
      by (simp add: pipelinesHandler_aggregate split: prod.splits sum.splits)
    then show ?thesis
      by (cases "gh_user_repos w org t")
         (simp_all add: aggregate_calls A [OF nf] repoLoop_no_user_repos)
  qed
  have C: "listRepos w org t log = (Inl e, log @ [HttpGet (OrgRepos org) t])"
    if "resp_status e \<noteq> Some 404"
    using rej that by (simp add: listRepos_def)
  have D: "pipelinesHandler w req t log = (errorReply e, log @ [HttpGet (OrgRepos org) t])"
    if nf: "resp_status e \<noteq> Some 404" and q: "query_org req = Some org \<and> org \<noteq> []" for req
    using q by (simp add: pipelinesHandler_aggregate aggregate_def C [OF nf])
  from A B C D
  show "(resp_status e = Some 404
        \<longrightarrow> listRepos w org t log
              = (gh_user_repos w org t,
                 log @ [HttpGet (OrgRepos org) t, HttpGet (UserRepos org) t])
          \<and> (\<forall>req. query_org req = Some org \<and> org \<noteq> []
                \<longrightarrow> length (filter isUserReposCall (snd (pipelinesHandler w req t log)))
                      = length (filter isUserReposCall log) + 1))
     \<and> (resp_status e \<noteq> Some 404
        \<longrightarrow> listRepos w org t log = (Inl e, log @ [HttpGet (OrgRepos org) t])
          \<and> (\<forall>req. query_org req = Some org \<and> org \<noteq> []
                \<longrightarrow> pipelinesHandler w req t log
                      = (errorReply e, log @ [HttpGet (OrgRepos org) t])))"
    by blast
qed

theorem user_scope_retry_only_on_404_witness:
  "listRepos demo_world ''octocat'' ''ghp_env'' []
     = (Inr [repoHello],
        [HttpGet (OrgRepos ''octocat'') ''ghp_env'', HttpGet (UserRepos ''octocat'') ''ghp_env''])
   \<and> length (filter isUserReposCall
        (snd (pipelinesHandler demo_world (demo_request\<lparr>query_org := Some ''octocat''\<rparr>)
                ''ghp_env'' []))) = 1
   \<and> pipelinesHandler demo_world (demo_request\<lparr>query_org := Some ''busy''\<rparr>) ''ghp_env'' []
     = (JsonError 500 ''Server Error'', [HttpGet (OrgRepos ''busy'') ''ghp_env''])"
proof -
  have o: "gh_org_repos demo_world ''octocat'' ''ghp_env'' = Inl (httpError 404 ''Not Found'')"
    by (simp add: demo_world_def demo_valid_def)
  have s: "resp_status (httpError 404 ''Not Found'') = Some 404" by (simp add: httpError_def)
  have u: "gh_user_repos demo_world ''octocat'' ''ghp_env'' = Inr [repoHello]"
    by (simp add: demo_world_def)
  let ?req = "demo_request\<lparr>query_org := Some ''octocat''\<rparr>"
  have q: "query_org ?req = Some ''octocat'' \<and> ''octocat'' \<noteq> []" by simp
  from user_scope_retry_only_on_404 [of demo_world "''octocat''" "''ghp_env''" _ "[]"] o s
  have 1: "listRepos demo_world ''octocat'' ''ghp_env'' []
              = (gh_user_repos demo_world ''octocat'' ''ghp_env'',
                 [] @ [HttpGet (OrgRepos ''octocat'') ''ghp_env'',
                       HttpGet (UserRepos ''octocat'') ''ghp_env''])"
    and 2: "length (filter isUserReposCall (snd (pipelinesHandler demo_world ?req ''ghp_env'' [])))
              = length (filter isUserReposCall []) + 1"
    using q by blast+
  have b: "gh_org_repos demo_world ''busy'' ''ghp_env'' = Inl (httpError 500 ''Server Error'')"
    by (simp add: demo_world_def demo_valid_def)
  have sb: "resp_status (httpError 500 ''Server Error'') \<noteq> Some 404"
    by (simp add: httpError_def)
  let ?req2 = "demo_request\<lparr>query_org := Some ''busy''\<rparr>"
  have q2: "query_org ?req2 = Some ''busy'' \<and> ''busy'' \<noteq> []" by simp
  from user_scope_retry_only_on_404 [of demo_world "''busy''" "''ghp_env''" _ "[]"] b sb q2
  have "pipelinesHandler demo_world ?req2 ''ghp_env'' []
          = (errorReply (httpError 500 ''Server Error''), [] @ [HttpGet (OrgRepos ''busy'') ''ghp_env''])"
    by blast
  then have 3: "pipelinesHandler demo_world ?req2 ''ghp_env'' []
     = (JsonError 500 ''Server Error'', [HttpGet (OrgRepos ''busy'') ''ghp_env''])"
    by (simp add: errorReply_def httpError_def or_else_def)
  from 1 2 3 u show ?thesis by simp
qed


lemma wfLoop_no_runs:
  "wfLoop w False owner repo t wfs st
     = (Inr (), st\<lparr>pipelines := pipelines st @ map (\<lambda>wfl. mkPipeline owner repo wfl None) wfs\<rparr>)"
  by (induction wfs arbitrary: st) simp_all

lemma repoBody_no_runs:
  "\<exists>ps. snd (repoBody w False org t repo st)
           = st\<lparr>pipelines := pipelines st @ ps,
                 calls := calls st @ [HttpGet (Workflows (ownerOf org repo) (repo_name repo)) t]\<rparr>
        \<and> (\<forall>p \<in> set ps. pl_latest_run p = None)"
proof (cases "gh_workflows w (ownerOf org repo) (repo_name repo) t")
  case (Inl e)
  then have "snd (repoBody w False org t repo st)
           = st\<lparr>pipelines := pipelines st @ [],
                 calls := calls st @ [HttpGet (Workflows (ownerOf org repo) (repo_name repo)) t]\<rparr>"
    by (simp add: repoBody_def Let_def)
  then show ?thesis by (intro exI [of _ "[]"]) simp
next
  case (Inr wfs)
  let ?ps = "map (\<lambda>wfl. mkPipeline (ownerOf org repo) (repo_name repo) wfl None)
               (case wfs of None \<Rightarrow> [] | Some ws \<Rightarrow> ws)"
  from Inr have "snd (repoBody w False org t repo st)
           = st\<lparr>pipelines := pipelines st @ ?ps,
                 calls := calls st @ [HttpGet (Workflows (ownerOf org repo) (repo_name repo)) t]\<rparr>"
    by (simp add: repoBody_def Let_def wfLoop_no_runs split: option.splits)
  moreover have "\<forall>p \<in> set ?ps. pl_latest_run p = None"
    by (auto simp: mkPipeline_def)
  ultimately show ?thesis by blast
qed

lemma repoLoop_no_runs:
  "filter isRunsCall (calls (snd (repoLoop w False org t repos st))) = filter isRunsCall (calls st)
   \<and> (\<forall>p \<in> set (pipelines (snd (repoLoop w False org t repos st))).
         p \<in> set (pipelines st) \<or> pl_latest_run p = None)"
proof (induction repos arbitrary: st)
  case Nil
  then show ?case by simp
next
  case (Cons a repos)
  obtain r s1 where b: "repoBody w False org t a st = (r, s1)"
    by (cases "repoBody w False org t a st")
  from repoBody_no_runs [of w org t a st] b obtain ps where
    s1: "s1 = st\<lparr>pipelines := pipelines st @ ps,
                 calls := calls st @ [HttpGet (Workflows (ownerOf org a) (repo_name a)) t]\<rparr>"
    and ps: "\<forall>p \<in> set ps. pl_latest_run p = None"
    by auto
  from s1 have c: "filter isRunsCall (calls s1) = filter isRunsCall (calls st)" by simp
  from s1 ps have p: "\<forall>p \<in> set (pipelines s1). p \<in> set (pipelines st) \<or> pl_latest_run p = None"
    by auto
  have rest: "filter isRunsCall (calls (snd (repoLoop w False org t repos s1)))
                = filter isRunsCall (calls st)
     \<and> (\<forall>p \<in> set (pipelines (snd (repoLoop w False org t repos s1))).
         p \<in> set (pipelines st) \<or> pl_latest_run p = None)"
    using Cons.IH [of s1] c p by (metis option.distinct(1) option.exhaust) 
  show ?case
  proof (cases r)
    case (Inl e)
    with b rest c p show ?thesis by (cases "skippable e") simp_all
  next
    case (Inr u)
    with b rest show ?thesis by simp
  qed
qed

lemma listRepos_no_runs:
  "filter isRunsCall (snd (listRepos w org t log)) = filter isRunsCall log"
  by (simp add: listRepos_def split: sum.splits)

lemma aggregate_no_runs:
  "filter isRunsCall (snd (aggregate w org False t log)) = filter isRunsCall log
   \<and> (\<forall>ps. fst (aggregate w org False t log) = Inr ps
         \<longrightarrow> (\<forall>p \<in> set ps. pl_latest_run p = None))"
proof -
  obtain r log1 where l: "listRepos w org t log = (r, log1)"
    by (cases "listRepos w org t log")
  with listRepos_no_runs [of w org t log]
  have l1: "filter isRunsCall log1 = filter isRunsCall log" by simp
  show ?thesis
  proof (cases r)
    case (Inl e)
    with l l1 show ?thesis by (simp add: aggregate_def)
  next
    case (Inr repos)
    let ?R = "repoLoop w False org t repos \<lparr>pipelines = [], calls = log1\<rparr>"
    from repoLoop_no_runs [of w org t repos "\<lparr>pipelines = [], calls = log1\<rparr>"] l1
    have "filter isRunsCall (calls (snd ?R)) = filter isRunsCall log"
      and "\<forall>p \<in> set (pipelines (snd ?R)). pl_latest_run p = None"
      by simp_all
    with l Inr show ?thesis
      by (cases ?R) (auto simp: aggregate_def split: sum.splits)
  qed
qed

lemma ensure_no_runs:
  "filter isRunsCall (snd (ensureGitHubToken w userId hdr [])) = []"
proof -
  obtain tok src log' where s: "selectToken w userId hdr [] = (tok, src, log')"
    by (cases "selectToken w userId hdr []") auto
  from selectToken_log [OF s] have "filter isRunsCall log' = []" by auto
  with s show ?thesis
    by (simp add: ensureGitHubToken_def split: option.splits sum.splits)
qed

text \<open>
  Claim C5: with \<open>includeRuns=false\<close> (in any letter case) the handler, and the route
  with its middleware, make no call of \<open>fetchLatestRun\<close>, and every pipeline of a
  successful answer has \<open>latest_run = null\<close>.
\<close>

theorem include_runs_false_never_fetches_runs:
  "query_includeRuns req = Some q \<and> toLowerCase q = ''false''
   \<longrightarrow> filter isRunsCall (snd (pipelinesHandler w req t log)) = filter isRunsCall log
     \<and> (\<forall>ps. fst (pipelinesHandler w req t log) = JsonPipelines ps
           \<longrightarrow> (\<forall>p \<in> set ps. pl_latest_run p = None))
     \<and> filter isRunsCall (snd (githubPipelines w req)) = []
     \<and> (\<forall>ps. fst (githubPipelines w req) = JsonPipelines ps
           \<longrightarrow> (\<forall>p \<in> set ps. pl_latest_run p = None))"
proof (intro impI)
  assume a: "query_includeRuns req = Some q \<and> toLowerCase q = ''false''"
  then have ir: "includeRunsOf (query_includeRuns req) = False"
    by (simp add: includeRunsOf_def)
  have H: "filter isRunsCall (snd (pipelinesHandler w req t log)) = filter isRunsCall log
     \<and> (\<forall>ps. fst (pipelinesHandler w req t log) = JsonPipelines ps
           \<longrightarrow> (\<forall>p \<in> set ps. pl_latest_run p = None))" for t log
  proof (cases "truthy (query_org req)")
    case False
    then show ?thesis by (simp add: pipelinesHandler_def)
  next
    case True
    let ?A = "aggregate w (or_else (query_org req) []) False t log"
    from aggregate_no_runs [of w "or_else (query_org req) []" t log] True ir
    show ?thesis
      by (cases ?A) (auto simp: pipelinesHandler_def errorReply_def split: sum.splits)
  qed
  have G: "filter isRunsCall (snd (githubPipelines w req)) = []
     \<and> (\<forall>ps. fst (githubPipelines w req) = JsonPipelines ps
           \<longrightarrow> (\<forall>p \<in> set ps. pl_latest_run p = None))"
  proof -
    obtain a log1 where e: "ensureGitHubToken w (maybeAuth req) (header_x_github_token req) []
                              = (a, log1)"
      by (cases "ensureGitHubToken w (maybeAuth req) (header_x_github_token req) []")
    with ensure_no_runs [of w "maybeAuth req" "header_x_github_token req"]
    have l: "filter isRunsCall log1 = []" by simp
    show ?thesis
    proof (cases a)
      case (Reply code msg)
      with e l show ?thesis by (simp add: githubPipelines_def)
    next
      case (Next tok src)
      with e l H [of tok log1] show ?thesis by (simp add: githubPipelines_def)
    qed
  qed
  from H [of t log] G
  show "filter isRunsCall (snd (pipelinesHandler w req t log)) = filter isRunsCall log
     \<and> (\<forall>ps. fst (pipelinesHandler w req t log) = JsonPipelines ps
           \<longrightarrow> (\<forall>p \<in> set ps. pl_latest_run p = None))
     \<and> filter isRunsCall (snd (githubPipelines w req)) = []
     \<and> (\<forall>ps. fst (githubPipelines w req) = JsonPipelines ps
           \<longrightarrow> (\<forall>p \<in> set ps. pl_latest_run p = None))"
    by blast
qed


lemma lower_False: "toLowerCase ''False'' = ''false''"
  by code_simp

lemma demo_ensure_env:
  "ensureGitHubToken demo_world None None [] = (Next ''ghp_env'' ''env'', [HttpGet User ''ghp_env''])"
  by (simp add: ensureGitHubToken_def selectToken_anonymous truthy_def demo_world_def demo_valid_def)

lemma demo_list_acme:
  "listRepos demo_world ''acme'' ''ghp_env'' log
     = (Inr ([repoApi] @ repoVault # [repoWeb]), log @ [HttpGet (OrgRepos ''acme'') ''ghp_env''])"
  by (simp add: listRepos_def demo_world_def demo_valid_def)

lemma demo_vault:
  "gh_workflows demo_world (ownerOf ''acme'' repoVault) (repo_name repoVault) t
     = Inl (httpError 403 ''Resource not accessible'')"
  "skippable (httpError 403 ''Resource not accessible'')"
  by (simp_all add: demo_world_def repoVault_def skippable_def httpError_def)

lemma demo_acme_no_runs:
  "githubPipelines demo_world (demo_request\<lparr>query_includeRuns := Some ''False''\<rparr>)
     = (JsonPipelines [mkPipeline ''acme'' ''api'' (demo_workflow 11 ''build'') None,
                       mkPipeline ''acme'' ''api'' (demo_workflow 12 ''nightly'') None,
                       mkPipeline ''acme'' ''web'' (demo_workflow 21 ''deploy'') None],
        [HttpGet User ''ghp_env'', HttpGet (OrgRepos ''acme'') ''ghp_env'',
         HttpGet (Workflows ''acme'' ''api'') ''ghp_env'',
         HttpGet (Workflows ''acme'' ''vault'') ''ghp_env'',
         HttpGet (Workflows ''acme'' ''web'') ''ghp_env''])"
proof -
  have ir: "includeRunsOf (Some ''False'') = False"
    by (simp add: includeRunsOf_def lower_False)
  have m: "maybeAuth (demo_request\<lparr>query_includeRuns := Some ''False''\<rparr>) = None"
    by (simp add: maybeAuth_def demo_request_def truthy_def)
  have h: "header_x_github_token (demo_request\<lparr>query_includeRuns := Some ''False''\<rparr>) = None"
    "query_org (demo_request\<lparr>query_includeRuns := Some ''False''\<rparr>) = Some ''acme''"
    by (simp_all add: demo_request_def)
  have loop: "repoLoop demo_world False ''acme'' ''ghp_env'' ([repoApi] @ (repoVault # [repoWeb]))
                \<lparr>pipelines = [], calls = l\<rparr>
     = (Inr (), \<lparr>pipelines = [mkPipeline ''acme'' ''api'' (demo_workflow 11 ''build'') None,
                       mkPipeline ''acme'' ''api'' (demo_workflow 12 ''nightly'') None,
                       mkPipeline ''acme'' ''web'' (demo_workflow 21 ''deploy'') None],
                 calls = l @ [HttpGet (Workflows ''acme'' ''api'') ''ghp_env'',
                   HttpGet (Workflows ''acme'' ''vault'') ''ghp_env'',
                   HttpGet (Workflows ''acme'' ''web'') ''ghp_env'']\<rparr>)" for l
    by (simp only: repoLoop_append demo_api_norun repoLoop_skip [OF demo_vault])
       (simp add: demo_web_norun ownerOf_def or_else_def repoVault_def del: repoLoop.simps)
  from loop have loop': "repoLoop demo_world False ''acme'' ''ghp_env'' [repoApi, repoVault, repoWeb]
                \<lparr>pipelines = [], calls = l\<rparr>
     = (Inr (), \<lparr>pipelines = [mkPipeline ''acme'' ''api'' (demo_workflow 11 ''build'') None,
                       mkPipeline ''acme'' ''api'' (demo_workflow 12 ''nightly'') None,
                       mkPipeline ''acme'' ''web'' (demo_workflow 21 ''deploy'') None],
                 calls = l @ [HttpGet (Workflows ''acme'' ''api'') ''ghp_env'',
                   HttpGet (Workflows ''acme'' ''vault'') ''ghp_env'',
                   HttpGet (Workflows ''acme'' ''web'') ''ghp_env'']\<rparr>)" for l
    by (simp del: repoLoop.simps)
  show ?thesis
    by (simp add: githubPipelines_def m h demo_ensure_env pipelinesHandler_def truthy_def
          or_else_def ir aggregate_def demo_list_acme loop' del: repoLoop.simps)
qed

theorem include_runs_false_never_fetches_runs_witness:
  "toLowerCase ''False'' = ''false''
   \<and> filter isRunsCall
        (snd (githubPipelines demo_world (demo_request\<lparr>query_includeRuns := Some ''False''\<rparr>))) = []
   \<and> pl_latest_run (mkPipeline ''acme'' ''api'' (demo_workflow 11 ''build'') None) = None
   \<and> pl_latest_run (mkPipeline ''acme'' ''web'' (demo_workflow 21 ''deploy'') None) = None
   \<and> length (snd (githubPipelines demo_world (demo_request\<lparr>query_includeRuns := Some ''False''\<rparr>)))
       = 5"
proof -
  let ?req = "demo_request\<lparr>query_includeRuns := Some ''False''\<rparr>"
  let ?ps = "[mkPipeline ''acme'' ''api'' (demo_workflow 11 ''build'') None,
              mkPipeline ''acme'' ''api'' (demo_workflow 12 ''nightly'') None,
              mkPipeline ''acme'' ''web'' (demo_workflow 21 ''deploy'') None]"
  have a: "query_includeRuns ?req = Some ''False'' \<and> toLowerCase ''False'' = ''false''"
    by (simp add: lower_False)
  have f: "fst (githubPipelines demo_world ?req) = JsonPipelines ?ps"
    by (simp add: demo_acme_no_runs)
  from include_runs_false_never_fetches_runs [of ?req "''False''" demo_world] a
  have 1: "filter isRunsCall (snd (githubPipelines demo_world ?req)) = []"
    and 2: "\<forall>ps. fst (githubPipelines demo_world ?req) = JsonPipelines ps
           \<longrightarrow> (\<forall>p \<in> set ps. pl_latest_run p = None)"
    by blast+
  from 2 f have "\<forall>p \<in> set ?ps. pl_latest_run p = None" by blast
  then have 3: "pl_latest_run (mkPipeline ''acme'' ''api'' (demo_workflow 11 ''build'') None) = None"
    and 4: "pl_latest_run (mkPipeline ''acme'' ''web'' (demo_workflow 21 ''deploy'') None) = None"
    by simp_all
  have 5: "length (snd (githubPipelines demo_world ?req)) = 5" by (simp add: demo_acme_no_runs)
  from a 1 3 4 5 show ?thesis by blast
qed

lemma wfLoop_keeps_prefix:
  "\<exists>ps. pipelines (snd (wfLoop w ir owner repo t wfs st)) = pipelines st @ ps"
proof (induction wfs arbitrary: st)
  case Nil
  then show ?case by simp
next
  case (Cons a wfs)
  show ?case
  proof (cases ir)
    case False
    then show ?thesis by (simp add: wfLoop_no_runs)
  next
    case True
    obtain r l where f: "fetchLatestRun w owner repo (wf_id a) t (calls st) = (r, l)"
      by (cases "fetchLatestRun w owner repo (wf_id a) t (calls st)")
    show ?thesis
    proof (cases r)
      case (Inl e)
      with True f show ?thesis by simp
    next
      case (Inr lr)
      let ?s = "st\<lparr>pipelines := pipelines st @ [mkPipeline owner repo a lr], calls := l\<rparr>"
      from Cons.IH [of ?s] obtain ps where
        "pipelines (snd (wfLoop w ir owner repo t wfs ?s)) = pipelines ?s @ ps" by blast
      with True f Inr show ?thesis by simp
    qed
  qed
qed

text \<open>
  Claim C6: when the listing of a workflow's runs has no run (an empty or a missing
  \<open>workflow_runs\<close>), \<open>fetchLatestRun\<close> returns \<open>null\<close>, not an error; the loop pushes the
  workflow's pipeline with \<open>latest_run = null\<close> and goes on, so that the pipeline is in
  the list the loop leaves.
\<close>

theorem no_runs_is_absence_not_error:
  "gh_runs w owner repo (wf_id wfl) t = Inr None \<or> gh_runs w owner repo (wf_id wfl) t = Inr (Some [])
   \<longrightarrow> fetchLatestRun w owner repo (wf_id wfl) t log
         = (Inr None, log @ [HttpGet (WorkflowRuns owner repo (wf_id wfl)) t])
     \<and> wfLoop w True owner repo t (wfl # wfs) st
         = wfLoop w True owner repo t wfs
             (st\<lparr>pipelines := pipelines st @ [mkPipeline owner repo wfl None],
                 calls := calls st @ [HttpGet (WorkflowRuns owner repo (wf_id wfl)) t]\<rparr>)
     \<and> mkPipeline owner repo wfl None
         \<in> set (pipelines (snd (wfLoop w True owner repo t (wfl # wfs) st)))
     \<and> pl_latest_run (mkPipeline owner repo wfl None) = None"
proof (intro impI)
  assume z: "gh_runs w owner repo (wf_id wfl) t = Inr None
             \<or> gh_runs w owner repo (wf_id wfl) t = Inr (Some [])"
  then have f: "fetchLatestRun w owner repo (wf_id wfl) t l
         = (Inr None, l @ [HttpGet (WorkflowRuns owner repo (wf_id wfl)) t])" for l
    by (auto simp: fetchLatestRun_def Let_def)
  let ?s = "st\<lparr>pipelines := pipelines st @ [mkPipeline owner repo wfl None],
                 calls := calls st @ [HttpGet (WorkflowRuns owner repo (wf_id wfl)) t]\<rparr>"
  have step: "wfLoop w True owner repo t (wfl # wfs) st = wfLoop w True owner repo t wfs ?s"
    by (simp add: f)
  from wfLoop_keeps_prefix [of w True owner repo t wfs ?s] obtain ps where
    "pipelines (snd (wfLoop w True owner repo t wfs ?s)) = pipelines ?s @ ps" by blast
  with step have mem: "mkPipeline owner repo wfl None
         \<in> set (pipelines (snd (wfLoop w True owner repo t (wfl # wfs) st)))"
    by simp
  have "pl_latest_run (mkPipeline owner repo wfl None) = None" by (simp add: mkPipeline_def)
  with f [of log] step mem
  show "fetchLatestRun w owner repo (wf_id wfl) t log
         = (Inr None, log @ [HttpGet (WorkflowRuns owner repo (wf_id wfl)) t])
     \<and> wfLoop w True owner repo t (wfl # wfs) st
         = wfLoop w True owner repo t wfs
             (st\<lparr>pipelines := pipelines st @ [mkPipeline owner repo wfl None],
                 calls := calls st @ [HttpGet (WorkflowRuns owner repo (wf_id wfl)) t]\<rparr>)
     \<and> mkPipeline owner repo wfl None
         \<in> set (pipelines (snd (wfLoop w True owner repo t (wfl # wfs) st)))
     \<and> pl_latest_run (mkPipeline owner repo wfl None) = None"
    by simp
qed

theorem no_runs_is_absence_not_error_witness:
  "fetchLatestRun demo_world ''acme'' ''api'' (wf_id (demo_workflow 12 ''nightly'')) ''ghp_env'' []
     = (Inr None, [HttpGet (WorkflowRuns ''acme'' ''api'' 12) ''ghp_env''])
   \<and> mkPipeline ''acme'' ''api'' (demo_workflow 12 ''nightly'') None
       \<in> set (pipelines (snd (wfLoop demo_world True ''acme'' ''api'' ''ghp_env''
                                 [demo_workflow 12 ''nightly''] \<lparr>pipelines = [], calls = []\<rparr>)))"
proof -
  have z: "gh_runs demo_world ''acme'' ''api'' (wf_id (demo_workflow 12 ''nightly'')) ''ghp_env''
             = Inr None
           \<or> gh_runs demo_world ''acme'' ''api'' (wf_id (demo_workflow 12 ''nightly'')) ''ghp_env''
             = Inr (Some [])"
    by (simp add: demo_world_def demo_workflow_def)
  have i: "wf_id (demo_workflow 12 ''nightly'') = 12" by (simp add: demo_workflow_def)
  from no_runs_is_absence_not_error
         [of demo_world "''acme''" "''api''" "demo_workflow 12 ''nightly''" "''ghp_env''" "[]"
             "[]" "\<lparr>pipelines = [], calls = []\<rparr>"] z
  have "fetchLatestRun demo_world ''acme'' ''api'' (wf_id (demo_workflow 12 ''nightly'')) ''ghp_env'' []
         = (Inr None, [] @ [HttpGet (WorkflowRuns ''acme'' ''api'' (wf_id (demo_workflow 12 ''nightly''))) ''ghp_env''])
     \<and> mkPipeline ''acme'' ''api'' (demo_workflow 12 ''nightly'') None
       \<in> set (pipelines (snd (wfLoop demo_world True ''acme'' ''api'' ''ghp_env''
                                 [demo_workflow 12 ''nightly''] \<lparr>pipelines = [], calls = []\<rparr>)))"
    by blast
  with i show ?thesis by simp
qed

lemma wfLoop_triples:
  "\<exists>n. map triple (pipelines (snd (wfLoop w ir owner repo t wfs st)))
         = map triple (pipelines st) @ map (\<lambda>wfl. (owner, repo, wf_id wfl)) (take n wfs)"
proof (induction wfs arbitrary: st)
  case Nil
  then show ?case by simp
next
  case (Cons a wfs)
  have tr: "triple (mkPipeline owner repo a lr) = (owner, repo, wf_id a)" for lr
    by (simp add: triple_def mkPipeline_def)
  have step: "\<exists>n. map triple (pipelines (snd (wfLoop w ir owner repo t wfs
                        (st\<lparr>pipelines := pipelines st @ [mkPipeline owner repo a lr], calls := l\<rparr>))))
         = map triple (pipelines st) @ map (\<lambda>wfl. (owner, repo, wf_id wfl)) (take n (a # wfs))"
    for lr l
  proof -
    let ?s = "st\<lparr>pipelines := pipelines st @ [mkPipeline owner repo a lr], calls := l\<rparr>"
    from Cons.IH [of ?s] obtain n where
      "map triple (pipelines (snd (wfLoop w ir owner repo t wfs ?s)))
         = map triple (pipelines ?s) @ map (\<lambda>wfl. (owner, repo, wf_id wfl)) (take n wfs)"
      by blast
    then have "map triple (pipelines (snd (wfLoop w ir owner repo t wfs ?s)))
         = map triple (pipelines st) @ map (\<lambda>wfl. (owner, repo, wf_id wfl)) (take (Suc n) (a # wfs))"
      by (simp add: tr)
    then show ?thesis by blast
  qed
  show ?case
  proof (cases ir)
    case False
    from step [where lr = None and l = "calls st"] False show ?thesis by simp
  next
    case True
    obtain r l where f: "fetchLatestRun w owner repo (wf_id a) t (calls st) = (r, l)"
      by (cases "fetchLatestRun w owner repo (wf_id a) t (calls st)")
    show ?thesis
    proof (cases r)
      case (Inl e)
      with True f have "map triple (pipelines (snd (wfLoop w ir owner repo t (a # wfs) st)))
         = map triple (pipelines st) @ map (\<lambda>wfl. (owner, repo, wf_id wfl)) (take 0 (a # wfs))"
        by simp
      then show ?thesis by blast
    next
      case (Inr lr)
      with True f step [where lr = lr and l = l] show ?thesis by simp
    qed
  qed
qed

lemma repoBody_triples:
  assumes "\<forall>wfs. gh_workflows w (ownerOf org repo) (repo_name repo) t = Inr (Some wfs)
             \<longrightarrow> distinct (map wf_id wfs)"
  shows "\<exists>ks. map triple (pipelines (snd (repoBody w ir org t repo st)))
                = map triple (pipelines st) @ map (\<lambda>i. (ownerOf org repo, repo_name repo, i)) ks
             \<and> distinct ks"
proof -
  have none: ?thesis if "pipelines (snd (repoBody w ir org t repo st)) = pipelines st"
    using that by (intro exI [of _ "[]"]) simp
  show ?thesis
  proof (cases "gh_workflows w (ownerOf org repo) (repo_name repo) t")
    case (Inl e)
    then show ?thesis by (intro none) (simp add: repoBody_def Let_def)
  next
    case (Inr wfs)
    show ?thesis
    proof (cases wfs)
      case None
      with Inr show ?thesis by (intro none) (simp add: repoBody_def Let_def)
    next
      case (Some ws)
      let ?s = "st\<lparr>calls := calls st @ [HttpGet (Workflows (ownerOf org repo) (repo_name repo)) t]\<rparr>"
      from Inr Some have b: "repoBody w ir org t repo st
                               = wfLoop w ir (ownerOf org repo) (repo_name repo) t ws ?s"
        by (cases ws) (simp_all add: repoBody_def Let_def)
      from wfLoop_triples [of w ir "ownerOf org repo" "repo_name repo" t ws ?s] obtain n where
        n: "map triple (pipelines (snd (wfLoop w ir (ownerOf org repo) (repo_name repo) t ws ?s)))
              = map triple (pipelines ?s)
                @ map (\<lambda>wfl. (ownerOf org repo, repo_name repo, wf_id wfl)) (take n ws)"
        by blast
      from assms Inr Some have "distinct (map wf_id ws)" by simp
      then have d: "distinct (map wf_id (take n ws))"
        by (simp add: take_map [symmetric])
      have "map (\<lambda>wfl. (ownerOf org repo, repo_name repo, wf_id wfl)) (take n ws)
              = map (\<lambda>i. (ownerOf org repo, repo_name repo, i)) (map wf_id (take n ws))"
        by simp
      with n b d show ?thesis
        by (intro exI [of _ "map wf_id (take n ws)"]) simp
    qed
  qed
qed

lemma repoLoop_distinct:
  assumes "distinct (map (repoKey org) repos)"
    and "\<forall>r \<in> set repos. \<forall>wfs. gh_workflows w (ownerOf org r) (repo_name r) t = Inr (Some wfs)
             \<longrightarrow> distinct (map wf_id wfs)"
    and "distinct (map triple (pipelines st))"
    and "\<forall>x \<in> set (map triple (pipelines st)). (fst x, fst (snd x)) \<notin> repoKey org ` set repos"
  shows "distinct (map triple (pipelines (snd (repoLoop w ir org t repos st))))"
  using assms
proof (induction repos arbitrary: st)
  case Nil
  then show ?case by simp
next
  case (Cons a repos)
  obtain r s1 where b: "repoBody w ir org t a st = (r, s1)"
    by (cases "repoBody w ir org t a st")
  from Cons.prems(2) have "\<forall>wfs. gh_workflows w (ownerOf org a) (repo_name a) t = Inr (Some wfs)
             \<longrightarrow> distinct (map wf_id wfs)"
    by simp
  from repoBody_triples [OF this, of ir st] b obtain ks where
    ks: "map triple (pipelines s1)
           = map triple (pipelines st) @ map (\<lambda>i. (ownerOf org a, repo_name a, i)) ks"
    and dk: "distinct ks"
    by auto
  have inj: "distinct (map (\<lambda>i. (ownerOf org a, repo_name a, i)) ks)"
    using dk by (simp add: distinct_map inj_on_def)
  have disj: "set (map triple (pipelines st))
                \<inter> set (map (\<lambda>i. (ownerOf org a, repo_name a, i)) ks) = {}"
  proof (rule ccontr)
    assume "set (map triple (pipelines st))
                \<inter> set (map (\<lambda>i. (ownerOf org a, repo_name a, i)) ks) \<noteq> {}"
    then obtain x where x: "x \<in> set (map triple (pipelines st))"
      and "x \<in> set (map (\<lambda>i. (ownerOf org a, repo_name a, i)) ks)"
      by blast
    then have "(fst x, fst (snd x)) = repoKey org a" by (auto simp: repoKey_def)
    with Cons.prems(4) x show False by auto
  qed
  from ks inj disj Cons.prems(3) have d1: "distinct (map triple (pipelines s1))"
    by simp
  have k1: "\<forall>x \<in> set (map triple (pipelines s1)). (fst x, fst (snd x)) \<notin> repoKey org ` set repos"
  proof
    fix x assume "x \<in> set (map triple (pipelines s1))"
    with ks have "x \<in> set (map triple (pipelines st))
                  \<or> x \<in> set (map (\<lambda>i. (ownerOf org a, repo_name a, i)) ks)"
      by auto
    then show "(fst x, fst (snd x)) \<notin> repoKey org ` set repos"
    proof
      assume "x \<in> set (map triple (pipelines st))"
      with Cons.prems(4) show ?thesis by auto
    next
      assume "x \<in> set (map (\<lambda>i. (ownerOf org a, repo_name a, i)) ks)"
      then have "(fst x, fst (snd x)) = repoKey org a" by (auto simp: repoKey_def)
      with Cons.prems(1) show ?thesis by auto
    qed
  qed
  from Cons.prems have "distinct (map (repoKey org) repos)"
    and "\<forall>r \<in> set repos. \<forall>wfs. gh_workflows w (ownerOf org r) (repo_name r) t = Inr (Some wfs)
             \<longrightarrow> distinct (map wf_id wfs)"
    by simp_all
  from Cons.IH [OF this d1 k1]
  have rest: "distinct (map triple (pipelines (snd (repoLoop w ir org t repos s1))))" .
  show ?case
  proof (cases r)
    case (Inl e)
    with b rest d1 show ?thesis by (cases "skippable e") simp_all
  next
    case (Inr u)
    with b rest show ?thesis by simp
  qed
qed

text \<open>
  Claim C8: when the enumerated repositories have pairwise different (owner, name) pairs,
  the owner being the one the loop uses, and every listing of their workflows has pairwise
  different workflow identifiers, the (owner, repo, workflowId) triples of the pipelines
  in a successful answer are pairwise different.
\<close>

theorem pipeline_triples_unique:
  "listRepos w org t log = (Inr repos, log1)
   \<and> distinct (map (repoKey org) repos)
   \<and> (\<forall>r \<in> set repos. \<forall>wfs. gh_workflows w (ownerOf org r) (repo_name r) t = Inr (Some wfs)
         \<longrightarrow> distinct (map wf_id wfs))
   \<longrightarrow> (\<forall>ps. fst (aggregate w org ir t log) = Inr ps \<longrightarrow> distinct (map triple ps))
     \<and> (\<forall>req ps. query_org req = Some org \<and> org \<noteq> []
           \<and> fst (pipelinesHandler w req t log) = JsonPipelines ps
         \<longrightarrow> distinct (map triple ps))"
proof (intro impI)
  assume a: "listRepos w org t log = (Inr repos, log1)
   \<and> distinct (map (repoKey org) repos)
   \<and> (\<forall>r \<in> set repos. \<forall>wfs. gh_workflows w (ownerOf org r) (repo_name r) t = Inr (Some wfs)
         \<longrightarrow> distinct (map wf_id wfs))"
  have A: "distinct (map triple ps)" if "fst (aggregate w org ir' t log) = Inr ps" for ps ir'
  proof -
    let ?R = "repoLoop w ir' org t repos \<lparr>pipelines = [], calls = log1\<rparr>"
    from a have "distinct (map triple (pipelines (snd ?R)))"
      by (intro repoLoop_distinct) simp_all
    moreover from a that have "ps = pipelines (snd ?R)"
      by (cases ?R) (auto simp: aggregate_def split: sum.splits)
    ultimately show ?thesis by simp
  qed
  have B: "distinct (map triple ps)"
    if h: "query_org req = Some org \<and> org \<noteq> []
           \<and> fst (pipelinesHandler w req t log) = JsonPipelines ps" for req ps
  proof -
    let ?A = "aggregate w org (includeRunsOf (query_includeRuns req)) t log"
    from h have "fst ?A = Inr ps"
      by (cases ?A) (auto simp: pipelinesHandler_aggregate errorReply_def split: sum.splits)
    then show ?thesis by (rule A)
  qed
  from A [of ir] B
  show "(\<forall>ps. fst (aggregate w org ir t log) = Inr ps \<longrightarrow> distinct (map triple ps))
     \<and> (\<forall>req ps. query_org req = Some org \<and> org \<noteq> []
           \<and> fst (pipelinesHandler w req t log) = JsonPipelines ps
         \<longrightarrow> distinct (map triple ps))"
    by blast
qed


theorem pipeline_triples_unique_witness:
  "fst (pipelinesHandler demo_world (demo_request\<lparr>query_includeRuns := Some ''False''\<rparr>)
          ''ghp_env'' [HttpGet User ''ghp_env''])
     = JsonPipelines [mkPipeline ''acme'' ''api'' (demo_workflow 11 ''build'') None,
                      mkPipeline ''acme'' ''api'' (demo_workflow 12 ''nightly'') None,
                      mkPipeline ''acme'' ''web'' (demo_workflow 21 ''deploy'') None]
   \<and> distinct (map triple [mkPipeline ''acme'' ''api'' (demo_workflow 11 ''build'') None,
                      mkPipeline ''acme'' ''api'' (demo_workflow 12 ''nightly'') None,
                      mkPipeline ''acme'' ''web'' (demo_workflow 21 ''deploy'') None])
   \<and> map (repoKey ''acme'') [repoApi, repoVault, repoWeb]
       = [(''acme'', ''api''), (''acme'', ''vault''), (''acme'', ''web'')]"
proof -
  let ?req = "demo_request\<lparr>query_includeRuns := Some ''False''\<rparr>"
  let ?ps = "[mkPipeline ''acme'' ''api'' (demo_workflow 11 ''build'') None,
              mkPipeline ''acme'' ''api'' (demo_workflow 12 ''nightly'') None,
              mkPipeline ''acme'' ''web'' (demo_workflow 21 ''deploy'') None]"
  let ?log = "[HttpGet User ''ghp_env'']"
  have m: "maybeAuth ?req = None" "header_x_github_token ?req = None"
    by (simp_all add: maybeAuth_def demo_request_def truthy_def)
  have "githubPipelines demo_world ?req = pipelinesHandler demo_world ?req ''ghp_env'' ?log"
    by (simp add: githubPipelines_def m demo_ensure_env)
  with demo_acme_no_runs
  have f: "fst (pipelinesHandler demo_world ?req ''ghp_env'' ?log) = JsonPipelines ?ps"
    by simp
  have k: "map (repoKey ''acme'') [repoApi, repoVault, repoWeb]
       = [(''acme'', ''api''), (''acme'', ''vault''), (''acme'', ''web'')]"
    by (simp add: repoKey_def ownerOf_def or_else_def repoApi_def repoVault_def repoWeb_def)
  have l: "listRepos demo_world ''acme'' ''ghp_env'' ?log
             = (Inr [repoApi, repoVault, repoWeb], ?log @ [HttpGet (OrgRepos ''acme'') ''ghp_env''])"
    using demo_list_acme [of ?log] by simp
  have d: "distinct (map (repoKey ''acme'') [repoApi, repoVault, repoWeb])"
    by (simp only: k) simp
  have wfs: "\<forall>r \<in> set [repoApi, repoVault, repoWeb].
               \<forall>wfs. gh_workflows demo_world (ownerOf ''acme'' r) (repo_name r) ''ghp_env''
                       = Inr (Some wfs) \<longrightarrow> distinct (map wf_id wfs)"
    by (auto simp: demo_world_def repoApi_def repoVault_def repoWeb_def demo_workflow_def)
  have q: "query_org ?req = Some ''acme'' \<and> ''acme'' \<noteq> []" by (simp add: demo_request_def)
  from pipeline_triples_unique
         [of demo_world "''acme''" "''ghp_env''" ?log "[repoApi, repoVault, repoWeb]"
             "?log @ [HttpGet (OrgRepos ''acme'') ''ghp_env'']"]
       l d wfs q f
  have "distinct (map triple ?ps)" by blast
  with f k show ?thesis by blast
qed

section \<open>Properties of the job summary\<close>

lemma show_nat_digits:
  "show_nat (Suc 0) = ''1''" "show_nat 1 = ''1''" "show_nat 2 = ''2''" "show_nat 3 = ''3''"
  "show_nat 7 = ''7''"
  by code_simp+

lemma stepLine_starts:
  "\<exists>rest. stepLine s = '' - #'' @ show_nat (step_number s) @ '' '' @ step_name s @ rest"
  unfolding stepLine_def by blast

text \<open>
  Claim C7, as stated, has the step lines ordered by step number even when the source
  returns the steps unordered.  The loop pushes one line per step in the order of
  \<open>job.steps\<close> and nothing sorts: for steps returned as 2, 1, 3 the lines are 2, 1, 3.
\<close>

theorem job_log_step_order_counterexample:
  "jobLogLines demo_job =
     [''Job: build | status: completed | conclusion: failure'',
      ''Started: 10:00 | Completed: 10:09'',
      [],
      ''Steps:'',
      '' - #2 compile | status: completed | conclusion: success | started: 10:00 | completed: '' @ dash,
      '' - #1 checkout | status: completed | conclusion: success | started: 10:00 | completed: '' @ dash,
      '' - #3 test | status: completed | conclusion: success | started: 10:00 | completed: '' @ dash,
      [],
      ''(Raw log not fetched: GH API returns ZIP; this is a synthesized summary text.)'']"
  by (simp add: jobLogLines_def jobHeader_def demo_job_def demo_step_def stepLine_def tpl_def
        or_else_def rawLogNote_def show_nat_digits del: show_nat.simps)

text \<open>
  Claim C7, amended: the lines of the summary are the four header lines (name, status and
  conclusion; the timestamps; an empty line; \<open>Steps:\<close>), then exactly one line per step
  of \<open>job.steps || []\<close>, in the order in which the source returned the steps, each
  starting with the step's number and name, then an empty line and the note that the raw
  log is not fetched; the answer's text is these lines joined by newlines.
\<close>

theorem job_log_lines_in_source_order:
  "(case job_steps job of None \<Rightarrow> [] | Some s \<Rightarrow> s) = ss
   \<longrightarrow> jobLogLines job = jobHeader job @ map stepLine ss @ [[], rawLogNote]
     \<and> length (jobHeader job) = 4
     \<and> length (jobLogLines job) = length ss + 6
     \<and> (\<forall>i < length ss.
           jobLogLines job ! (4 + i) = stepLine (ss ! i)
           \<and> (\<exists>rest. stepLine (ss ! i)
                  = '' - #'' @ show_nat (step_number (ss ! i)) @ '' '' @ step_name (ss ! i) @ rest))
     \<and> (\<forall>req t log js.
           truthy (query_owner req) \<and> truthy (query_repo req) \<and> truthy (query_runId req)
           \<and> truthy (query_jobId req)
           \<and> gh_jobs w (or_else (query_owner req) []) (or_else (query_repo req) [])
                (or_else (query_runId req) []) t = Inr (Some js)
           \<and> find (\<lambda>j. show_nat (job_id j) = or_else (query_jobId req) []) js = Some job
           \<longrightarrow> fst (jobLogHandler w req t log) = JsonText (join [CHR 0x0A] (jobLogLines job)))"
proof (intro impI)
  assume s: "(case job_steps job of None \<Rightarrow> [] | Some s \<Rightarrow> s) = ss"
  have L: "jobLogLines job = jobHeader job @ map stepLine ss @ [[], rawLogNote]"
    using s by (simp add: jobLogLines_def)
  have H: "length (jobHeader job) = 4" by (simp add: jobHeader_def)
  have N: "length (jobLogLines job) = length ss + 6" by (simp add: L H)
  have I: "jobLogLines job ! (4 + i) = stepLine (ss ! i)
           \<and> (\<exists>rest. stepLine (ss ! i)
                  = '' - #'' @ show_nat (step_number (ss ! i)) @ '' '' @ step_name (ss ! i) @ rest)"
    if "i < length ss" for i
  proof -
    from that have "jobLogLines job ! (4 + i) = stepLine (ss ! i)"
      by (simp add: L nth_append H)
    with stepLine_starts [of "ss ! i"] show ?thesis by simp
  qed
  have R: "fst (jobLogHandler w req t log) = JsonText (join [CHR 0x0A] (jobLogLines job))"
    if "truthy (query_owner req) \<and> truthy (query_repo req) \<and> truthy (query_runId req)
           \<and> truthy (query_jobId req)
           \<and> gh_jobs w (or_else (query_owner req) []) (or_else (query_repo req) [])
                (or_else (query_runId req) []) t = Inr (Some js)
           \<and> find (\<lambda>j. show_nat (job_id j) = or_else (query_jobId req) []) js = Some job"
    for req t log js
    using that by (simp add: jobLogHandler_def Let_def del: show_nat.simps)
  from L H N I R
  show "jobLogLines job = jobHeader job @ map stepLine ss @ [[], rawLogNote]
     \<and> length (jobHeader job) = 4
     \<and> length (jobLogLines job) = length ss + 6
     \<and> (\<forall>i < length ss.
           jobLogLines job ! (4 + i) = stepLine (ss ! i)
           \<and> (\<exists>rest. stepLine (ss ! i)
                  = '' - #'' @ show_nat (step_number (ss ! i)) @ '' '' @ step_name (ss ! i) @ rest))
     \<and> (\<forall>req t log js.
           truthy (query_owner req) \<and> truthy (query_repo req) \<and> truthy (query_runId req)
           \<and> truthy (query_jobId req)
           \<and> gh_jobs w (or_else (query_owner req) []) (or_else (query_repo req) [])
                (or_else (query_runId req) []) t = Inr (Some js)
           \<and> find (\<lambda>j. show_nat (job_id j) = or_else (query_jobId req) []) js = Some job
           \<longrightarrow> fst (jobLogHandler w req t log) = JsonText (join [CHR 0x0A] (jobLogLines job)))"
    by blast
qed

theorem job_log_lines_in_source_order_witness:
  "length (jobLogLines demo_job) = 3 + 6
   \<and> jobLogLines demo_job ! (4 + 0) = stepLine (demo_step 2 ''compile'')
   \<and> jobLogLines demo_job ! (4 + 1) = stepLine (demo_step 1 ''checkout'')
   \<and> jobLogLines demo_job ! (4 + 2) = stepLine (demo_step 3 ''test'')
   \<and> fst (jobLogHandler demo_world demo_request ''ghp_env'' [])
       = JsonText (join [CHR 0x0A] (jobLogLines demo_job))"
proof -
  let ?ss = "[demo_step 2 ''compile'', demo_step 1 ''checkout'', demo_step 3 ''test'']"
  have s: "(case job_steps demo_job of None \<Rightarrow> [] | Some s \<Rightarrow> s) = ?ss"
    by (simp add: demo_job_def)
  have q: "truthy (query_owner demo_request) \<and> truthy (query_repo demo_request)
           \<and> truthy (query_runId demo_request) \<and> truthy (query_jobId demo_request)
           \<and> gh_jobs demo_world (or_else (query_owner demo_request) [])
                (or_else (query_repo demo_request) []) (or_else (query_runId demo_request) [])
                ''ghp_env'' = Inr (Some [demo_job])
           \<and> find (\<lambda>j. show_nat (job_id j) = or_else (query_jobId demo_request) []) [demo_job]
               = Some demo_job"
    by (simp add: demo_request_def truthy_def or_else_def demo_world_def demo_job_def
          show_nat_digits del: show_nat.simps)
  note t = job_log_lines_in_source_order [of demo_job ?ss demo_world]
  from t s have n: "length (jobLogLines demo_job) = length ?ss + 6"
    and i: "\<forall>i < length ?ss. jobLogLines demo_job ! (4 + i) = stepLine (?ss ! i)"
    by blast+
  from t s q have h: "fst (jobLogHandler demo_world demo_request ''ghp_env'' [])
       = JsonText (join [CHR 0x0A] (jobLogLines demo_job))"
    by blast
  have "0 < length ?ss" "1 < length ?ss" "2 < length ?ss" by simp_all
  with i have "jobLogLines demo_job ! (4 + 0) = stepLine (?ss ! 0)"
    and "jobLogLines demo_job ! (4 + 1) = stepLine (?ss ! 1)"
    and "jobLogLines demo_job ! (4 + 2) = stepLine (?ss ! 2)"
    by blast+
  with n h show ?thesis by simp
qed

end
